theory Spec2Isabelle
  imports Main "HOL-Library.AList"
begin

section \<open>Go library functions used by the jailer\<close>

text \<open>
  Strings are byte strings (\<open>char list\<close>), as Go's are. The functions of this section
  model the parts of \<open>strconv\<close>, \<open>strings\<close> and \<open>path/filepath\<close> that the jailer
  calls, on the arguments it passes.
\<close>

definition newline :: string where
  "newline = [CHR 0x0A]"

definition is_digit :: "char \<Rightarrow> bool" where
  "is_digit c = (48 \<le> (of_char c :: nat) \<and> (of_char c :: nat) \<le> 57)"

definition digit_val :: "char \<Rightarrow> int" where
  "digit_val c = int (of_char c) - 48"

fun parse_digits :: "string \<Rightarrow> int \<Rightarrow> int option" where
  "parse_digits [] n = Some n"
| "parse_digits (c # cs) n =
     (if is_digit c then parse_digits cs (n * 10 + digit_val c) else None)"

text \<open>
  \<open>strconv.Atoi\<close> on a 64-bit platform: an optional sign, then at least one decimal
  digit and nothing else; a value outside the range of \<open>int\<close> is an error.
\<close>

definition Atoi :: "string \<Rightarrow> int option" where
  "Atoi s =
     (case s of
        [] \<Rightarrow> None
      | c # cs \<Rightarrow>
          let neg = (c = CHR ''-'');
              ds = (if c = CHR ''-'' \<or> c = CHR ''+'' then cs else s)
          in if ds = [] then None
             else (case parse_digits ds 0 of
                     None \<Rightarrow> None
                   | Some n \<Rightarrow>
                       let v = (if neg then - n else n)
                       in if - (2 ^ 63) \<le> v \<and> v < 2 ^ 63 then Some v else None))"

fun nat_digits :: "nat \<Rightarrow> string" where
  "nat_digits n =
     (if n < 10 then [char_of (48 + n)]
      else nat_digits (n div 10) @ [char_of (48 + n mod 10)])"

declare nat_digits.simps [simp del]

text \<open>\<open>strconv.Itoa\<close>, which is also what the verb \<open>%d\<close> of \<open>fmt.Sprintf\<close> prints.\<close>

definition Itoa :: "int \<Rightarrow> string" where
  "Itoa i = (if i < 0 then CHR ''-'' # nat_digits (nat (- i)) else nat_digits (nat i))"

text \<open>\<open>strings.Split\<close> with a separator of one byte.\<close>

fun Split :: "char \<Rightarrow> string \<Rightarrow> string list" where
  "Split sep [] = [[]]"
| "Split sep (c # cs) =
     (if c = sep then [] # Split sep cs
      else (case Split sep cs of
              [] \<Rightarrow> [[c]]
            | w # ws \<Rightarrow> (c # w) # ws))"

text \<open>\<open>strings.Join\<close>.\<close>

fun strings_Join :: "string list \<Rightarrow> string \<Rightarrow> string" where
  "strings_Join [] sep = []"
| "strings_Join [x] sep = x"
| "strings_Join (x # y # ys) sep = x @ sep @ strings_Join (y # ys) sep"

text \<open>\<open>strings.TrimPrefix\<close>.\<close>

definition TrimPrefix :: "string \<Rightarrow> string \<Rightarrow> string" where
  "TrimPrefix s p = (if take (length p) s = p then drop (length p) s else s)"

text \<open>
  \<open>strings.Fields\<close>: the maximal runs of bytes that are not white space. The white space
  is that of ASCII (tab, line feed, vertical tab, form feed, carriage return, space);
  bytes from \<open>0x80\<close> on count as part of a field.
\<close>

definition is_space :: "char \<Rightarrow> bool" where
  "is_space c = ((of_char c :: nat) \<in> {9, 10, 11, 12, 13, 32})"

fun fields_from :: "string \<Rightarrow> string \<Rightarrow> string list" where
  "fields_from cur [] = (if cur = [] then [] else [cur])"
| "fields_from cur (c # cs) =
     (if is_space c then (if cur = [] then fields_from [] cs else cur # fields_from [] cs)
      else fields_from (cur @ [c]) cs)"

definition Fields :: "string \<Rightarrow> string list" where
  "Fields s = fields_from [] s"

text \<open>
  \<open>filepath.Clean\<close> on a Unix path: empty and \<open>.\<close> elements are dropped, a \<open>..\<close>
  element removes the element before it (at the root it is dropped, at the start of a
  relative path it stays). The stack holds the elements kept so far, last one first.
\<close>

fun clean_step :: "bool \<Rightarrow> string list \<Rightarrow> string \<Rightarrow> string list" where
  "clean_step rooted stack e =
     (if e = [] \<or> e = ''.'' then stack
      else if e = ''..'' then
        (case stack of
           [] \<Rightarrow> (if rooted then [] else [''..''])
         | prev # rest \<Rightarrow> (if prev = ''..'' then e # stack else rest))
      else e # stack)"

definition Clean :: "string \<Rightarrow> string" where
  "Clean p =
     (if p = [] then ''.''
      else
        let rooted = (hd p = CHR ''/'');
            kept = rev (foldl (clean_step rooted) [] (Split (CHR ''/'') p))
        in if rooted then CHR ''/'' # strings_Join kept ''/''
           else if kept = [] then ''.''
           else strings_Join kept ''/'')"

text \<open>
  \<open>filepath.Join\<close>: the elements from the first non-empty one on, joined by slashes and
  cleaned; the empty string when every element is empty.
\<close>

definition Join :: "string list \<Rightarrow> string" where
  "Join elems =
     (case dropWhile (\<lambda>e. e = []) elems of
        [] \<Rightarrow> []
      | e # es \<Rightarrow> Clean (strings_Join (e # es) ''/''))"

section \<open>The jail record and its methods\<close>

text \<open>
  \<open>Timestamp\<close> is the reading of the clock when the record was made; it is only ever
  printed.
\<close>

record Jail =
  PID :: int
  OriginalCgroup :: string
  JailTypes :: "string list"
  Timestamp :: nat
  Children :: "int list"

fun has_type_loop :: "string list \<Rightarrow> string \<Rightarrow> bool" where
  "has_type_loop [] jailType = False"
| "has_type_loop (t # ts) jailType = (if t = jailType then True else has_type_loop ts jailType)"

definition HasJailType :: "Jail \<Rightarrow> string \<Rightarrow> bool" where
  "HasJailType j jailType = has_type_loop (JailTypes j) jailType"

definition AddJailType :: "Jail \<Rightarrow> string \<Rightarrow> Jail" where
  "AddJailType j jailType =
     (if \<not> HasJailType j jailType then j\<lparr>JailTypes := JailTypes j @ [jailType]\<rparr> else j)"

text \<open>
  \<open>RemoveJailType\<close> cuts the first element equal to \<open>jailType\<close> out of the slice and
  stops (\<open>break\<close>).
\<close>

fun remove_type_loop :: "string list \<Rightarrow> string \<Rightarrow> string list" where
  "remove_type_loop [] jailType = []"
| "remove_type_loop (t # ts) jailType =
     (if t = jailType then ts else t # remove_type_loop ts jailType)"

definition RemoveJailType :: "Jail \<Rightarrow> string \<Rightarrow> Jail" where
  "RemoveJailType j jailType = j\<lparr>JailTypes := remove_type_loop (JailTypes j) jailType\<rparr>"

definition GetJailTypesString :: "Jail \<Rightarrow> string" where
  "GetJailTypesString j =
     (if length (JailTypes j) = 0 then ''none'' else strings_Join (JailTypes j) '','')"

text \<open>A call of one of the two mutating methods, and a sequence of such calls.\<close>

datatype type_call = Add string | Remove string

fun apply_call :: "Jail \<Rightarrow> type_call \<Rightarrow> Jail" where
  "apply_call j (Add t) = AddJailType j t"
| "apply_call j (Remove t) = RemoveJailType j t"

definition apply_calls :: "Jail \<Rightarrow> type_call list \<Rightarrow> Jail" where
  "apply_calls j cs = foldl apply_call j cs"

section \<open>The operating system\<close>

text \<open>
  The jailer reaches the kernel through five calls of package \<open>os\<close>. An \<open>os_env\<close> fixes
  what each of them answers: it is a snapshot of the process table and of the cgroup file
  system that stays the same while one operation of the jailer runs. \<open>os_WriteFile\<close> and
  \<open>os_MkdirAll\<close> say whether the call succeeds; the calls that change the file system
  are also recorded, in order, as the \<open>fsop\<close>s an operation returns.
\<close>

datatype stat_result = StatOk | StatNotExist | StatOtherError

record DirEntry =
  Name :: string
  IsDir :: bool

record os_env =
  os_Stat :: "string \<Rightarrow> stat_result"
  os_ReadFile :: "string \<Rightarrow> string option"
  os_ReadDir :: "string \<Rightarrow> DirEntry list option"
  os_WriteFile :: "string \<Rightarrow> string \<Rightarrow> bool"
  os_MkdirAll :: "string \<Rightarrow> bool"
  time_Now :: nat

datatype fsop = MkdirAll string | WriteFile string string

text \<open>
  An error of the jailer is the format string of its \<open>fmt.Errorf\<close>, the arguments
  printed into it and, where the format ends in \<open>%v\<close> of another error, that error.
  \<open>OSError\<close> is an error returned by package \<open>os\<close>. \<open>RecursionBudgetExceeded\<close> is not
  an error of the program: it is what the model of the recursive descent answers when
  its recursion budget runs out, which never happens.
\<close>

datatype error =
    OSError
  | RecursionBudgetExceeded
  | Errorf string "string list" "error option"

type_synonym outcome = "error option \<times> fsop list"

text \<open>
  \<open>then_do r k\<close> is \<open>r\<close> followed by \<open>k\<close> when \<open>r\<close> did not fail, with the effects of
  both; a failed \<open>r\<close> returns at once.
\<close>

definition then_do :: "outcome \<Rightarrow> outcome \<Rightarrow> outcome" where
  "then_do r k =
     (case r of
        (Some e, ops) \<Rightarrow> (Some e, ops)
      | (None, ops) \<Rightarrow> (fst k, ops @ snd k))"

text \<open>
  The calls \<open>os.MkdirAll\<close>, \<open>os.WriteFile\<close> and \<open>os.Stat\<close> (tested with
  \<open>os.IsNotExist\<close>), each with the \<open>return fmt.Errorf(...)\<close> that follows it in
  cgroups.go: \<open>e\<close> is the error returned when the call fails. They are not the helper
  \<open>writeFile\<close> of firewall.go, which the operations modelled here do not call.
\<close>

definition mkdirAll :: "os_env \<Rightarrow> string \<Rightarrow> error \<Rightarrow> outcome" where
  "mkdirAll env path e = (if os_MkdirAll env path then None else Some e, [MkdirAll path])"

definition writeFile :: "os_env \<Rightarrow> string \<Rightarrow> string \<Rightarrow> error \<Rightarrow> outcome" where
  "writeFile env path content e =
     (if os_WriteFile env path content then None else Some e, [WriteFile path content])"

definition statExists :: "os_env \<Rightarrow> string \<Rightarrow> error \<Rightarrow> outcome" where
  "statExists env path e = (if os_Stat env path = StatNotExist then Some e else None, [])"

text \<open>\<open>wrap msg r\<close> is \<open>r\<close> with its error, if any, printed into the format \<open>msg\<close>.\<close>

definition wrap :: "string \<Rightarrow> outcome \<Rightarrow> outcome" where
  "wrap msg r =
     (case r of
        (Some e, ops) \<Rightarrow> (Some (Errorf msg [] (Some e)), ops)
      | (None, ops) \<Rightarrow> (None, ops))"

section \<open>The process table (process.go)\<close>

fun children_loop :: "os_env \<Rightarrow> int \<Rightarrow> DirEntry list \<Rightarrow> int list \<Rightarrow> int list" where
  "children_loop env pid [] children = children"
| "children_loop env pid (entry # entries) children =
     (if \<not> IsDir entry then children_loop env pid entries children
      else case Atoi (Name entry) of
        None \<Rightarrow> children_loop env pid entries children
      | Some childPid \<Rightarrow>
         (case os_ReadFile env (Join [''/proc'', Name entry, ''stat'']) of
            None \<Rightarrow> children_loop env pid entries children
          | Some content \<Rightarrow>
              let fields = Fields content
              in if length fields < 4 then children_loop env pid entries children
                 else (case Atoi (fields ! 3) of
                         None \<Rightarrow> children_loop env pid entries children
                       | Some ppid \<Rightarrow>
                           if ppid = pid
                           then children_loop env pid entries (children @ [childPid])
                           else children_loop env pid entries children)))"

definition getProcessChildren :: "os_env \<Rightarrow> int \<Rightarrow> error + int list" where
  "getProcessChildren env pid =
     (case os_ReadDir env ''/proc'' of
        None \<Rightarrow> Inl (Errorf ''failed to read /proc directory: %v'' [] (Some OSError))
      | Some entries \<Rightarrow> Inr (children_loop env pid entries []))"

text \<open>
  The variables captured by the closure \<open>findDescendants\<close>: the map \<open>visited\<close> and the
  slice \<open>descendants\<close>. \<open>scans\<close> lists, in order, the pids for which
  \<open>getProcessChildren\<close> was called, that is, the scans of \<open>/proc\<close>.
\<close>

record walk =
  visited :: "int set"
  descendants :: "int list"
  scans :: "int list"

text \<open>
  The closure calls itself from inside its loop over the children. The first argument
  bounds the depth of these calls; \<open>None\<close> means that the bound was reached.
  \<open>descend_children\<close> is the loop: it ignores the error of a recursive call.
\<close>

fun findDescendants :: "nat \<Rightarrow> os_env \<Rightarrow> int \<Rightarrow> walk \<Rightarrow> (error option \<times> walk) option"
  and descend_children :: "nat \<Rightarrow> os_env \<Rightarrow> int list \<Rightarrow> walk \<Rightarrow> walk option" where
  "findDescendants 0 env parentPid w = None"
| "findDescendants (Suc n) env parentPid w =
     (if parentPid \<in> visited w then Some (None, w)
      else
        let w1 = w\<lparr>visited := insert parentPid (visited w), scans := scans w @ [parentPid]\<rparr>
        in case getProcessChildren env parentPid of
             Inl err \<Rightarrow> Some (Some err, w1)
           | Inr children \<Rightarrow>
               (case descend_children n env children w1 of
                  None \<Rightarrow> None
                | Some w2 \<Rightarrow> Some (None, w2)))"
| "descend_children n env [] w = Some w"
| "descend_children n env (childPid # children) w =
     (case findDescendants n env childPid (w\<lparr>descendants := descendants w @ [childPid]\<rparr>) of
        None \<Rightarrow> None
      | Some (err, w') \<Rightarrow> descend_children n env children w')"

text \<open>
  A call can only go deeper into a pid that was not visited before, and below the root
  every such pid names an entry of \<open>/proc\<close>: two more levels than \<open>/proc\<close> has entries
  are enough.
\<close>

definition recursion_budget :: "os_env \<Rightarrow> nat" where
  "recursion_budget env =
     (case os_ReadDir env ''/proc'' of None \<Rightarrow> 2 | Some entries \<Rightarrow> length entries + 2)"

definition new_walk :: walk where
  "new_walk = \<lparr>visited = {}, descendants = [], scans = []\<rparr>"

definition getAllDescendants :: "os_env \<Rightarrow> int \<Rightarrow> error + int list" where
  "getAllDescendants env pid =
     (case findDescendants (recursion_budget env) env pid new_walk of
        None \<Rightarrow> Inl RecursionBudgetExceeded
      | Some (Some err, w) \<Rightarrow> Inl err
      | Some (None, w) \<Rightarrow> Inr (descendants w))"

definition processExists :: "os_env \<Rightarrow> int \<Rightarrow> bool" where
  "processExists env pid = (os_Stat env (''/proc/'' @ Itoa pid) = StatOk)"

definition validateProcessAccess :: "os_env \<Rightarrow> int \<Rightarrow> error option" where
  "validateProcessAccess env pid =
     (if \<not> processExists env pid
      then Some (Errorf ''process %d does not exist'' [Itoa pid] None)
      else if os_Stat env (''/proc/'' @ Itoa pid @ ''/cgroup'') \<noteq> StatOk
      then Some (Errorf ''cannot access cgroup info for process %d: %v'' [Itoa pid] (Some OSError))
      else None)"

section \<open>The state of the jailer\<close>

text \<open>
  \<open>ActiveJails\<close> is a Go map from pid to a pointer to the record. It is kept as an
  association list: \<open>map_of\<close> looks a pid up, \<open>AList.update\<close> stores a record (in place
  when the pid has one, which is also what a write through the pointer does) and
  \<open>AList.delete\<close> removes one. The order of the list is the order in which a
  \<open>range\<close> over the map visits it.
\<close>

record JailerState =
  ActiveJails :: "(int \<times> Jail) list"
  NetworkCgroupPath :: string
  CpuCgroupPath :: string
  NetworkCpuCgroupPath :: string
  CgroupVersion :: int
  FirewallTool :: string

definition NewJailerState :: JailerState where
  "NewJailerState =
     \<lparr>ActiveJails = [], NetworkCgroupPath = [], CpuCgroupPath = [],
      NetworkCpuCgroupPath = [], CgroupVersion = 0, FirewallTool = []\<rparr>"

subsection \<open>The sweep of dead processes (process.go)\<close>

text \<open>
  The inner loop of \<open>cleanupDeadProcesses\<close>: the children that still exist, and the
  number of those that do not.
\<close>

fun alive_loop :: "os_env \<Rightarrow> int list \<Rightarrow> int list \<Rightarrow> nat \<Rightarrow> int list \<times> nat" where
  "alive_loop env [] aliveChildren deadChildren = (aliveChildren, deadChildren)"
| "alive_loop env (childPid # rest) aliveChildren deadChildren =
     (if processExists env childPid
      then alive_loop env rest (aliveChildren @ [childPid]) deadChildren
      else alive_loop env rest aliveChildren (deadChildren + 1))"

text \<open>
  The outer loop visits every entry of the map; \<open>seen\<close> holds the entries already
  visited, with the children lists it has written through their pointers.
\<close>

fun sweep_loop ::
  "os_env \<Rightarrow> (int \<times> Jail) list \<Rightarrow> (int \<times> Jail) list \<Rightarrow> int list
     \<Rightarrow> (int \<times> Jail) list \<times> int list" where
  "sweep_loop env [] seen deadProcesses = (seen, deadProcesses)"
| "sweep_loop env ((pid, jail) # rest) seen deadProcesses =
     (if \<not> processExists env pid
      then sweep_loop env rest (seen @ [(pid, jail)]) (deadProcesses @ [pid])
      else
        let (aliveChildren, deadChildren) = alive_loop env (Children jail) [] 0;
            jail' = (if deadChildren > 0 then jail\<lparr>Children := aliveChildren\<rparr> else jail)
        in sweep_loop env rest (seen @ [(pid, jail')]) deadProcesses)"

fun delete_all :: "int list \<Rightarrow> (int \<times> Jail) list \<Rightarrow> (int \<times> Jail) list" where
  "delete_all [] jails = jails"
| "delete_all (pid # pids) jails = delete_all pids (AList.delete pid jails)"

definition cleanupDeadProcesses :: "os_env \<Rightarrow> JailerState \<Rightarrow> JailerState" where
  "cleanupDeadProcesses env state =
     (let (jails, deadProcesses) = sweep_loop env (ActiveJails state) [] []
      in state\<lparr>ActiveJails := delete_all deadProcesses jails\<rparr>)"

section \<open>Control groups (cgroups.go)\<close>

definition JailCpuCgroup :: string where
  "JailCpuCgroup = ''jail-cpu''"

definition JailNetworkCgroup :: string where
  "JailNetworkCgroup = ''jail-network''"

definition JailNetworkCpuCgroup :: string where
  "JailNetworkCpuCgroup = ''jail-network-cpu''"

definition cpuPeriod :: string where
  "cpuPeriod = ''100000'' @ newline"

definition cpuQuota :: string where
  "cpuQuota = ''1000'' @ newline"

definition detectCgroupVersion :: "os_env \<Rightarrow> error + (int \<times> string)" where
  "detectCgroupVersion env =
     (if os_Stat env ''/sys/fs/cgroup/cgroup.controllers'' = StatOk
      then Inr (2, ''/sys/fs/cgroup'')
      else if os_Stat env ''/sys/fs/cgroup/memory'' = StatOk
      then Inr (1, ''/sys/fs/cgroup'')
      else Inl (Errorf ''neither cgroups v1 nor v2 found'' [] None))"

definition setupCpuLimitV2 :: "os_env \<Rightarrow> JailerState \<Rightarrow> outcome" where
  "setupCpuLimitV2 env state =
     (let cpuMaxFile = Join [CpuCgroupPath state, ''cpu.max''];
          cpuLimit = ''10000 100000'' @ newline
      in writeFile env cpuMaxFile cpuLimit
           (Errorf ''failed to set CPU limit in %s: %v'' [cpuMaxFile] (Some OSError)))"

text \<open>
  A failed write of \<open>cgroup.subtree_control\<close> is only printed, so the write is recorded
  and its error dropped.
\<close>

definition initializeCgroupV2 :: "os_env \<Rightarrow> JailerState \<Rightarrow> outcome" where
  "initializeCgroupV2 env state =
     then_do (mkdirAll env (NetworkCgroupPath state)
                (Errorf ''failed to create network cgroup directory: %v'' [] (Some OSError)))
    (then_do (mkdirAll env (CpuCgroupPath state)
                (Errorf ''failed to create CPU cgroup directory: %v'' [] (Some OSError)))
    (then_do (mkdirAll env (NetworkCpuCgroupPath state)
                (Errorf ''failed to create network and CPU combined cgroup directory: %v'' []
                   (Some OSError)))
    (then_do (None, [WriteFile ''/sys/fs/cgroup/cgroup.subtree_control''
                       (''+memory +pids +cpu'' @ newline)])
             (wrap ''failed to setup CPU limit: %v'' (setupCpuLimitV2 env state)))))"

definition setupCpuLimitV1 :: "os_env \<Rightarrow> JailerState \<Rightarrow> outcome" where
  "setupCpuLimitV1 env state =
     (let cpuCfsPeriodFile = Join [CpuCgroupPath state, ''cpu.cfs_period_us''];
          cpuCfsQuotaFile = Join [CpuCgroupPath state, ''cpu.cfs_quota_us''];
          combinedCpuCgroupPath = NetworkCpuCgroupPath state;
          cpuCfsPeriodFileCombined = Join [combinedCpuCgroupPath, ''cpu.cfs_period_us''];
          cpuCfsQuotaFileCombined = Join [combinedCpuCgroupPath, ''cpu.cfs_quota_us'']
      in then_do (statExists env (CpuCgroupPath state)
                    (Errorf ''CPU cgroup directory does not exist: %v'' [] (Some OSError)))
        (then_do (writeFile env cpuCfsPeriodFile cpuPeriod
                    (Errorf ''failed to set CPU period in %s: %v'' [cpuCfsPeriodFile] (Some OSError)))
        (then_do (writeFile env cpuCfsQuotaFile cpuQuota
                    (Errorf ''failed to set CPU quota in %s: %v'' [cpuCfsQuotaFile] (Some OSError)))
        (then_do (writeFile env cpuCfsPeriodFileCombined cpuPeriod
                    (Errorf ''failed to set CPU period in %s: %v'' [cpuCfsPeriodFileCombined]
                       (Some OSError)))
                 (writeFile env cpuCfsQuotaFileCombined cpuQuota
                    (Errorf ''failed to set CPU quota in %s: %v'' [cpuCfsQuotaFileCombined]
                       (Some OSError)))))))"

fun init_subsystems_loop :: "os_env \<Rightarrow> string list \<Rightarrow> outcome" where
  "init_subsystems_loop env [] = (None, [])"
| "init_subsystems_loop env (subsys # rest) =
     then_do (mkdirAll env (Join [''/sys/fs/cgroup'', subsys, JailNetworkCgroup])
                (Errorf ''failed to create cgroup for subsystem %s: %v'' [subsys] (Some OSError)))
             (init_subsystems_loop env rest)"

definition initializeCgroupV1 :: "os_env \<Rightarrow> JailerState \<Rightarrow> outcome" where
  "initializeCgroupV1 env state =
     (let subsystems = [''memory'', ''pids'', ''net_cls'', ''cpu''];
          cpuCgroupDir = Join [''/sys/fs/cgroup/cpu'', JailCpuCgroup];
          networkCpuCgroupDir = Join [''/sys/fs/cgroup/cpu'', JailNetworkCpuCgroup]
      in then_do (init_subsystems_loop env subsystems)
        (then_do (mkdirAll env cpuCgroupDir
                    (Errorf ''failed to create CPU cgroup directory: %v'' [] (Some OSError)))
        (then_do (statExists env cpuCgroupDir
                    (Errorf ''CPU cgroup directory does not exist: %v'' [] (Some OSError)))
        (then_do (mkdirAll env networkCpuCgroupDir
                    (Errorf ''failed to create network and CPU combined cgroup directory: %v'' []
                       (Some OSError)))
        (then_do (statExists env networkCpuCgroupDir
                    (Errorf ''network and CPU combined cgroup directory does not exist: %v'' []
                       (Some OSError)))
                 (wrap ''failed to setup CPU limit: %v'' (setupCpuLimitV1 env state)))))))"

definition initializeCgroup :: "os_env \<Rightarrow> JailerState \<Rightarrow> error option \<times> JailerState \<times> fsop list" where
  "initializeCgroup env state =
     (case detectCgroupVersion env of
        Inl err \<Rightarrow> (Some (Errorf ''failed to detect cgroup version: %v'' [] (Some err)), state, [])
      | Inr (version, basePath) \<Rightarrow>
          let state1 = state\<lparr>CgroupVersion := version\<rparr>
          in if version = 2 then
               let state2 = state1
                     \<lparr>NetworkCgroupPath := Join [basePath, JailNetworkCgroup],
                      CpuCgroupPath := Join [basePath, JailCpuCgroup],
                      NetworkCpuCgroupPath := Join [basePath, JailNetworkCpuCgroup]\<rparr>
               in (fst (initializeCgroupV2 env state2), state2, snd (initializeCgroupV2 env state2))
             else
               let state2 = state1
                     \<lparr>NetworkCgroupPath := Join [basePath, ''memory'', JailNetworkCgroup],
                      CpuCgroupPath := Join [basePath, ''cpu'', JailCpuCgroup],
                      NetworkCpuCgroupPath := Join [basePath, ''cpu'', JailNetworkCpuCgroup]\<rparr>
               in (fst (initializeCgroupV1 env state2), state2, snd (initializeCgroupV1 env state2)))"

fun cgroup_lines_loop :: "int \<Rightarrow> string list \<Rightarrow> error + string" where
  "cgroup_lines_loop pid [] = Inl (Errorf ''no cgroup found for PID %d'' [Itoa pid] None)"
| "cgroup_lines_loop pid (line # lines) =
     (if line = [] then cgroup_lines_loop pid lines
      else
        let parts = Split (CHR '':'') line
        in if length parts \<ge> 3 then Inr (parts ! 2) else cgroup_lines_loop pid lines)"

definition getProcessCgroup :: "os_env \<Rightarrow> int \<Rightarrow> error + string" where
  "getProcessCgroup env pid =
     (case os_ReadFile env (''/proc/'' @ Itoa pid @ ''/cgroup'') of
        None \<Rightarrow> Inl (Errorf ''failed to read cgroup file for PID %d: %v'' [Itoa pid] (Some OSError))
      | Some content \<Rightarrow> cgroup_lines_loop pid (Split (CHR 0x0A) content))"

definition moveProcessToCgroupV2 :: "os_env \<Rightarrow> JailerState \<Rightarrow> int \<Rightarrow> outcome" where
  "moveProcessToCgroupV2 env state pid =
     (let procsFile = Join [NetworkCgroupPath state, ''cgroup.procs''];
          pidStr = Itoa pid @ newline
      in writeFile env procsFile pidStr
           (Errorf ''failed to move PID %d to jail cgroup: %v'' [Itoa pid] (Some OSError)))"

fun move_v1_loop :: "os_env \<Rightarrow> int \<Rightarrow> string list \<Rightarrow> outcome" where
  "move_v1_loop env pid [] = (None, [])"
| "move_v1_loop env pid (subsys # rest) =
     (let procsFile = Join [''/sys/fs/cgroup'', subsys, ''jail'', ''cgroup.procs''];
          pidStr = Itoa pid @ newline
      in then_do (writeFile env procsFile pidStr
                    (Errorf ''failed to move PID %d to jail cgroup (subsystem %s): %v''
                       [Itoa pid, subsys] (Some OSError)))
                 (move_v1_loop env pid rest))"

definition moveProcessToCgroupV1 :: "os_env \<Rightarrow> JailerState \<Rightarrow> int \<Rightarrow> outcome" where
  "moveProcessToCgroupV1 env state pid = move_v1_loop env pid [''net_cls'']"

definition moveProcessToCgroup :: "os_env \<Rightarrow> JailerState \<Rightarrow> int \<Rightarrow> outcome" where
  "moveProcessToCgroup env state pid =
     (if CgroupVersion state = 2 then moveProcessToCgroupV2 env state pid
      else moveProcessToCgroupV1 env state pid)"

definition moveProcessToCpuCgroupV2 :: "os_env \<Rightarrow> JailerState \<Rightarrow> int \<Rightarrow> outcome" where
  "moveProcessToCpuCgroupV2 env state pid =
     (let procsFile = Join [CpuCgroupPath state, ''cgroup.procs''];
          pidStr = Itoa pid @ newline
      in writeFile env procsFile pidStr
           (Errorf ''failed to move PID %d to CPU jail cgroup: %v'' [Itoa pid] (Some OSError)))"

definition moveProcessToCpuCgroupV1 :: "os_env \<Rightarrow> JailerState \<Rightarrow> int \<Rightarrow> outcome" where
  "moveProcessToCpuCgroupV1 env state pid =
     (let procsFile = Join [CpuCgroupPath state, ''cgroup.procs''];
          pidStr = Itoa pid @ newline
      in then_do (mkdirAll env (CpuCgroupPath state)
                    (Errorf ''failed to create CPU cgroup directory: %v'' [] (Some OSError)))
        (then_do (statExists env (CpuCgroupPath state)
                    (Errorf ''CPU cgroup directory does not exist: %v'' [] (Some OSError)))
                 (writeFile env procsFile pidStr
                    (Errorf ''failed to move PID %d to CPU jail cgroup: %v'' [Itoa pid]
                       (Some OSError)))))"

definition moveProcessToCpuCgroup :: "os_env \<Rightarrow> JailerState \<Rightarrow> int \<Rightarrow> outcome" where
  "moveProcessToCpuCgroup env state pid =
     (if CgroupVersion state = 2 then moveProcessToCpuCgroupV2 env state pid
      else moveProcessToCpuCgroupV1 env state pid)"

definition restoreProcessCgroupV2 :: "os_env \<Rightarrow> int \<Rightarrow> string \<Rightarrow> outcome" where
  "restoreProcessCgroupV2 env pid originalCgroup =
     (let procsFile = Join [''/sys/fs/cgroup'', TrimPrefix originalCgroup ''/'', ''cgroup.procs''];
          pidStr = Itoa pid @ newline
      in writeFile env procsFile pidStr
           (Errorf ''failed to restore PID %d to original cgroup %s: %v''
              [Itoa pid, originalCgroup] (Some OSError)))"

fun restore_v1_loop :: "os_env \<Rightarrow> int \<Rightarrow> string \<Rightarrow> string list \<Rightarrow> outcome" where
  "restore_v1_loop env pid originalCgroup [] = (None, [])"
| "restore_v1_loop env pid originalCgroup (subsys # rest) =
     (let procsFile =
            Join [''/sys/fs/cgroup'', subsys, TrimPrefix originalCgroup ''/'', ''cgroup.procs''];
          pidStr = Itoa pid @ newline
      in then_do (writeFile env procsFile pidStr
                    (Errorf ''failed to restore PID %d to original cgroup %s (subsystem %s): %v''
                       [Itoa pid, originalCgroup, subsys] (Some OSError)))
                 (restore_v1_loop env pid originalCgroup rest))"

definition restoreProcessCgroupV1 :: "os_env \<Rightarrow> int \<Rightarrow> string \<Rightarrow> outcome" where
  "restoreProcessCgroupV1 env pid originalCgroup =
     restore_v1_loop env pid originalCgroup [''memory'', ''pids'', ''net_cls'', ''cpu'']"

definition restoreProcessCgroup :: "os_env \<Rightarrow> JailerState \<Rightarrow> int \<Rightarrow> string \<Rightarrow> outcome" where
  "restoreProcessCgroup env state pid originalCgroup =
     (if CgroupVersion state = 2 then restoreProcessCgroupV2 env pid originalCgroup
      else restoreProcessCgroupV1 env pid originalCgroup)"

definition moveProcessToCombinedCgroup ::
  "os_env \<Rightarrow> JailerState \<Rightarrow> int \<Rightarrow> string \<Rightarrow> outcome" where
  "moveProcessToCombinedCgroup env state pid combinedJailType =
     (let combinedCgroupPath = NetworkCpuCgroupPath state;
          netClsDir = Join [''/sys/fs/cgroup/net_cls'', JailNetworkCpuCgroup];
          procsFile = Join [combinedCgroupPath, ''cgroup.procs''];
          pidStr = Itoa pid @ newline;
          netClsProcsFile = Join [netClsDir, ''cgroup.procs'']
      in then_do (mkdirAll env netClsDir
                    (Errorf ''failed to create net_cls directory for combined jail: %v'' []
                       (Some OSError)))
        (then_do (writeFile env procsFile pidStr
                    (Errorf ''failed to move PID %d to combined cgroup %s: %v''
                       [Itoa pid, combinedCgroupPath] (Some OSError)))
                 (writeFile env netClsProcsFile pidStr
                    (Errorf ''failed to move PID %d to net_cls combined cgroup %s: %v''
                       [Itoa pid, netClsDir] (Some OSError)))))"

section \<open>Jailing and unjailing (main.go)\<close>

text \<open>
  The operations return their error (\<open>None\<close> is Go's \<open>nil\<close>), the state they leave and
  the changes they made to the file system. What they print is not part of the model: a
  failure that the source only prints as a warning is a failure whose error is dropped.
\<close>

text \<open>The loop of \<open>jailProcess\<close> over the descendants of a newly jailed process.\<close>

fun jail_descendants_loop ::
  "os_env \<Rightarrow> JailerState \<Rightarrow> string \<Rightarrow> int list \<Rightarrow> int list \<Rightarrow> int list \<times> fsop list" where
  "jail_descendants_loop env state jailType [] successfulDescendants =
     (successfulDescendants, [])"
| "jail_descendants_loop env state jailType (descendantPid # rest) successfulDescendants =
     (let r = (if jailType = ''cpu'' then moveProcessToCpuCgroup env state descendantPid
               else moveProcessToCgroup env state descendantPid);
          successful = (case fst r of
                          Some err \<Rightarrow> successfulDescendants
                        | None \<Rightarrow> successfulDescendants @ [descendantPid]);
          k = jail_descendants_loop env state jailType rest successful
      in (fst k, snd r @ snd k))"

definition jailProcess ::
  "os_env \<Rightarrow> JailerState \<Rightarrow> string \<Rightarrow> string \<Rightarrow> error option \<times> JailerState \<times> fsop list" where
  "jailProcess env state jailType pidStr =
     (case Atoi pidStr of
        None \<Rightarrow> (Some (Errorf ''invalid PID: %s'' [pidStr] None), state, [])
      | Some pid \<Rightarrow>
          if jailType \<noteq> ''network'' \<and> jailType \<noteq> ''cpu''
          then (Some (Errorf
                  ''unsupported jail type: %s (only 'network' and 'cpu' are supported)''
                  [jailType] None), state, [])
          else
            (case map_of (ActiveJails state) pid of
               Some jail \<Rightarrow>
                 if HasJailType jail jailType
                 then (Some (Errorf ''process %d is already jailed with %s jail''
                               [Itoa pid, jailType] None), state, [])
                 else
                   let jail' = AddJailType jail jailType;
                       state' = state\<lparr>ActiveJails := AList.update pid jail' (ActiveJails state)\<rparr>;
                       combinedJailType = GetJailTypesString jail';
                       r = wrap ''failed to move process to combined jail: %v''
                             (moveProcessToCombinedCgroup env state' pid combinedJailType)
                   in (fst r, state', snd r)
             | None \<Rightarrow>
                 (case validateProcessAccess env pid of
                    Some err \<Rightarrow> (Some err, state, [])
                  | None \<Rightarrow>
                     (case getProcessCgroup env pid of
                        Inl err \<Rightarrow>
                          (Some (Errorf ''failed to get original cgroup for PID %d: %v''
                                   [Itoa pid] (Some err)), state, [])
                      | Inr originalCgroup \<Rightarrow>
                         (case getAllDescendants env pid of
                            Inl err \<Rightarrow>
                              (Some (Errorf ''failed to get descendants for PID %d: %v''
                                       [Itoa pid] (Some err)), state, [])
                          | Inr descendantPids \<Rightarrow>
                              let r = (if jailType = ''cpu''
                                       then wrap ''failed to move main process to CPU jail: %v''
                                              (moveProcessToCpuCgroup env state pid)
                                       else wrap ''failed to move main process to jail: %v''
                                              (moveProcessToCgroup env state pid))
                              in (case fst r of
                                    Some err \<Rightarrow> (Some err, state, snd r)
                                  | None \<Rightarrow>
                                      let k = jail_descendants_loop env state jailType
                                                descendantPids [];
                                          jail = \<lparr>PID = pid, OriginalCgroup = originalCgroup,
                                                  JailTypes = [jailType],
                                                  Timestamp = time_Now env,
                                                  Children = fst k\<rparr>
                                      in (None,
                                          state\<lparr>ActiveJails :=
                                                  AList.update pid jail (ActiveJails state)\<rparr>,
                                          snd r @ snd k)))))))"

text \<open>
  The loops of \<open>unjailProcessSelective\<close> over the children: every child that still
  exists is moved with \<open>move\<close>, and a failure is only printed.
\<close>

fun move_children_loop :: "os_env \<Rightarrow> (int \<Rightarrow> outcome) \<Rightarrow> int list \<Rightarrow> fsop list" where
  "move_children_loop env move [] = []"
| "move_children_loop env move (childPid # rest) =
     (if processExists env childPid
      then snd (move childPid) @ move_children_loop env move rest
      else move_children_loop env move rest)"

text \<open>The loop of \<open>unjailProcess\<close> over the children, with its counter.\<close>

fun restore_children_loop ::
  "os_env \<Rightarrow> JailerState \<Rightarrow> string \<Rightarrow> int list \<Rightarrow> nat \<Rightarrow> nat \<times> fsop list" where
  "restore_children_loop env state originalCgroup [] restoredCount = (restoredCount, [])"
| "restore_children_loop env state originalCgroup (childPid # rest) restoredCount =
     (if \<not> processExists env childPid
      then restore_children_loop env state originalCgroup rest restoredCount
      else
        let r = restoreProcessCgroup env state childPid originalCgroup;
            k = restore_children_loop env state originalCgroup rest
                  (case fst r of Some err \<Rightarrow> restoredCount | None \<Rightarrow> restoredCount + 1)
        in (fst k, snd r @ snd k))"

definition unjailProcess ::
  "os_env \<Rightarrow> JailerState \<Rightarrow> string \<Rightarrow> error option \<times> JailerState \<times> fsop list" where
  "unjailProcess env state pidStr =
     (case Atoi pidStr of
        None \<Rightarrow> (Some (Errorf ''invalid PID: %s'' [pidStr] None), state, [])
      | Some pid \<Rightarrow>
         (case map_of (ActiveJails state) pid of
            None \<Rightarrow> (Some (Errorf ''process %d is not jailed'' [Itoa pid] None), state, [])
          | Some jail \<Rightarrow>
              let main_ops = (if processExists env pid
                              then snd (restoreProcessCgroup env state pid (OriginalCgroup jail))
                              else []);
                  k = restore_children_loop env state (OriginalCgroup jail) (Children jail) 0
              in (None,
                  state\<lparr>ActiveJails := AList.delete pid (ActiveJails state)\<rparr>,
                  main_ops @ snd k)))"

definition unjailProcessSelective ::
  "os_env \<Rightarrow> JailerState \<Rightarrow> string \<Rightarrow> string \<Rightarrow> error option \<times> JailerState \<times> fsop list" where
  "unjailProcessSelective env state jailType pidStr =
     (case Atoi pidStr of
        None \<Rightarrow> (Some (Errorf ''invalid PID: %s'' [pidStr] None), state, [])
      | Some pid \<Rightarrow>
         (case map_of (ActiveJails state) pid of
            None \<Rightarrow> (Some (Errorf ''process %d is not jailed'' [Itoa pid] None), state, [])
          | Some jail0 \<Rightarrow>
              if \<not> HasJailType jail0 jailType
              then (Some (Errorf ''process %d is not jailed with %s jail''
                            [Itoa pid, jailType] None), state, [])
              else if length (JailTypes jail0) = 1
              then unjailProcess env state pidStr
              else
                let jail = RemoveJailType jail0 jailType;
                    state' = state\<lparr>ActiveJails := AList.update pid jail (ActiveJails state)\<rparr>;
                    remainingJailTypes = GetJailTypesString jail
                in if length (JailTypes jail) = 1
                   then
                     let remainingType = hd (JailTypes jail)
                     in if remainingType = ''cpu''
                        then (None, state',
                              snd (moveProcessToCpuCgroup env state' pid)
                              @ move_children_loop env (moveProcessToCpuCgroup env state')
                                  (Children jail))
                        else if remainingType = ''network''
                        then (None, state',
                              snd (moveProcessToCgroup env state' pid)
                              @ move_children_loop env (moveProcessToCgroup env state')
                                  (Children jail))
                        else (None, state', [])
                   else (None, state',
                         snd (moveProcessToCombinedCgroup env state' pid remainingJailTypes)
                         @ move_children_loop env
                             (\<lambda>childPid. moveProcessToCombinedCgroup env state' childPid
                                             remainingJailTypes)
                             (Children jail))))"

section \<open>Notions used to state the properties\<close>

text \<open>The error that the specification calls \<open>AlreadyJailed\<close>.\<close>

definition AlreadyJailed :: "int \<Rightarrow> string \<Rightarrow> error" where
  "AlreadyJailed pid jailType =
     Errorf ''process %d is already jailed with %s jail'' [Itoa pid, jailType] None"

text \<open>
  The move into the cgroup of a single jail type, as \<open>jailProcess\<close> chooses it for the
  root and for each descendant of a newly jailed process.
\<close>

definition single_move :: "os_env \<Rightarrow> JailerState \<Rightarrow> string \<Rightarrow> int \<Rightarrow> outcome" where
  "single_move env state jailType p =
     (if jailType = ''cpu'' then moveProcessToCpuCgroup env state p
      else moveProcessToCgroup env state p)"

text \<open>
  The first file that \<open>restoreProcessCgroup\<close> writes, and what a full unjail does for
  one process: the restore to \<open>originalCgroup\<close> if the process still exists, nothing
  otherwise.
\<close>

definition first_restore_file :: "JailerState \<Rightarrow> string \<Rightarrow> string" where
  "first_restore_file state originalCgroup =
     (if CgroupVersion state = 2
      then Join [''/sys/fs/cgroup'', TrimPrefix originalCgroup ''/'', ''cgroup.procs'']
      else Join [''/sys/fs/cgroup'', ''memory'', TrimPrefix originalCgroup ''/'',
                 ''cgroup.procs''])"

definition restore_ops_if_alive ::
  "os_env \<Rightarrow> JailerState \<Rightarrow> string \<Rightarrow> int \<Rightarrow> fsop list" where
  "restore_ops_if_alive env state originalCgroup p =
     (if processExists env p then snd (restoreProcessCgroup env state p originalCgroup)
      else [])"

text \<open>What the sweep leaves of the record of a root that still exists.\<close>

definition pruned :: "os_env \<Rightarrow> Jail \<Rightarrow> Jail" where
  "pruned env jail =
     (if \<exists>c \<in> set (Children jail). \<not> processExists env c
      then jail\<lparr>Children := filter (processExists env) (Children jail)\<rparr> else jail)"

text \<open>
  The pids that the entries of \<open>/proc\<close> name, and the invariant of the descent: no pid
  was scanned twice, and every scanned pid is marked as visited.
\<close>

definition table_pids :: "DirEntry list \<Rightarrow> int set" where
  "table_pids entries = set (List.map_filter (\<lambda>e. Atoi (Name e)) entries)"

definition scanned_once :: "walk \<Rightarrow> bool" where
  "scanned_once w = (distinct (scans w) \<and> set (scans w) \<subseteq> visited w)"

section \<open>A concrete host\<close>

text \<open>
  A host with two processes, 100 and its child 101, both in the cgroup
  \<open>/user.slice\<close>. \<open>unified\<close> chooses between cgroups v2 and v1, \<open>writes\<close> says which
  writes succeed. \<open>booted\<close> is the state after \<open>initializeCgroup\<close>, \<open>jailed_network\<close>
  the state after the command \<open>jail network 100\<close>, and \<open>jailed_both\<close> the state after
  \<open>jail cpu 100\<close> on top of it, all on a host where every write succeeds.
\<close>

definition proc_table :: "DirEntry list" where
  "proc_table =
     [\<lparr>Name = ''100'', IsDir = True\<rparr>, \<lparr>Name = ''101'', IsDir = True\<rparr>,
      \<lparr>Name = ''self'', IsDir = True\<rparr>, \<lparr>Name = ''uptime'', IsDir = False\<rparr>]"

definition host :: "bool \<Rightarrow> (string \<Rightarrow> string \<Rightarrow> bool) \<Rightarrow> os_env" where
  "host unified writes =
     \<lparr>os_Stat = (\<lambda>p. if p \<in> {''/proc/100'', ''/proc/101'', ''/proc/100/cgroup'',
                                ''/sys/fs/cgroup/cpu/jail-cpu'',
                                ''/sys/fs/cgroup/cpu/jail-network-cpu''}
                         \<or> p = (if unified then ''/sys/fs/cgroup/cgroup.controllers''
                                else ''/sys/fs/cgroup/memory'')
                      then StatOk else StatNotExist),
      os_ReadFile = (\<lambda>p. if p = ''/proc/100/stat'' then Some ''100 (root) S 1 100 100 0''
                          else if p = ''/proc/101/stat'' then Some ''101 (child) S 100 100 100 0''
                          else if p = ''/proc/100/cgroup'' then Some (''0::/user.slice'' @ newline)
                          else None),
      os_ReadDir = (\<lambda>p. if p = ''/proc'' then Some proc_table else None),
      os_WriteFile = writes,
      os_MkdirAll = (\<lambda>p. True),
      time_Now = 0\<rparr>"

definition all_writes :: "string \<Rightarrow> string \<Rightarrow> bool" where
  "all_writes path content = True"

definition no_writes :: "string \<Rightarrow> string \<Rightarrow> bool" where
  "no_writes path content = False"

definition writes_except :: "string \<Rightarrow> string \<Rightarrow> string \<Rightarrow> bool" where
  "writes_except bad path content = (path \<noteq> bad)"

definition writes_but_pid :: "int \<Rightarrow> string \<Rightarrow> string \<Rightarrow> bool" where
  "writes_but_pid p path content = (content \<noteq> Itoa p @ newline)"

definition booted :: "bool \<Rightarrow> JailerState" where
  "booted unified = fst (snd (initializeCgroup (host unified all_writes) NewJailerState))"

definition jailed_network :: "bool \<Rightarrow> JailerState" where
  "jailed_network unified =
     fst (snd (jailProcess (host unified all_writes) (booted unified) ''network'' ''100''))"

definition jailed_both :: "bool \<Rightarrow> JailerState" where
  "jailed_both unified =
     fst (snd (jailProcess (host unified all_writes) (jailed_network unified) ''cpu'' ''100''))"

text \<open>The same host after process 101 has exited.\<close>

definition child_gone :: "os_env \<Rightarrow> os_env" where
  "child_gone env =
     env\<lparr>os_Stat := (\<lambda>p. if p = ''/proc/101'' then StatNotExist else os_Stat env p)\<rparr>"

text \<open>A host whose process table is cyclic: 100 is the parent of 101 and 101 of 100.\<close>

definition cyclic_host :: os_env where
  "cyclic_host =
     (host True all_writes)
       \<lparr>os_ReadFile := (\<lambda>p. if p = ''/proc/100/stat'' then Some ''100 (a) S 101 100 100 0''
                             else if p = ''/proc/101/stat'' then Some ''101 (b) S 100 100 100 0''
                             else None)\<rparr>"

definition jail_1234 :: Jail where
  "jail_1234 =
     \<lparr>PID = 1234, OriginalCgroup = ''/'', JailTypes = [''network''], Timestamp = 0,
      Children = []\<rparr>"

section \<open>The jail types of a record\<close>

lemma has_type_loop_set: "has_type_loop ts t = (t \<in> set ts)"
  by (induction ts) auto

lemma remove_type_loop_remove1: "remove_type_loop ts t = remove1 t ts"
  by (induction ts) auto

lemma AddJailType_distinct: "distinct (JailTypes j) \<Longrightarrow> distinct (JailTypes (AddJailType j t))"
  by (simp add: AddJailType_def HasJailType_def has_type_loop_set)

lemma RemoveJailType_distinct:
  "distinct (JailTypes j) \<Longrightarrow> distinct (JailTypes (RemoveJailType j t))"
  by (simp add: RemoveJailType_def remove_type_loop_remove1)

lemma apply_calls_distinct:
  "distinct (JailTypes j) \<Longrightarrow> distinct (JailTypes (apply_calls j cs))"
  unfolding apply_calls_def
proof (induction cs arbitrary: j)
  case Nil
  then show ?case by simp
next
  case (Cons c cs)
  have "distinct (JailTypes (apply_call j c))"
    using Cons.prems by (cases c) (simp_all add: AddJailType_distinct RemoveJailType_distinct)
  then show ?case using Cons.IH by simp
qed

text \<open>
  Claim C10. A list of jail types without duplicates stays without duplicates under every
  sequence of calls of \<open>AddJailType\<close> and \<open>RemoveJailType\<close>; \<open>AddJailType\<close> leaves a
  record that has the type as it is; so the length of the list is the number of types in
  it, and the test \<open>len(JailTypes) == 1\<close> holds exactly when the record has one type.
\<close>

theorem JailTypes_duplicate_free:
  assumes "distinct (JailTypes j)"
  shows "distinct (JailTypes (apply_calls j cs))
       \<and> length (JailTypes (apply_calls j cs)) = card (set (JailTypes (apply_calls j cs)))
       \<and> (HasJailType j t \<longrightarrow> AddJailType j t = j)
       \<and> (length (JailTypes (apply_calls j cs)) = 1
            \<longleftrightarrow> (\<exists>x. set (JailTypes (apply_calls j cs)) = {x}))"
proof -
  have d: "distinct (JailTypes (apply_calls j cs))"
    using assms by (rule apply_calls_distinct)
  have c: "length (JailTypes (apply_calls j cs)) = card (set (JailTypes (apply_calls j cs)))"
    using d by (simp add: distinct_card)
  have a: "HasJailType j t \<longrightarrow> AddJailType j t = j"
    by (simp add: AddJailType_def)
  have s: "length (JailTypes (apply_calls j cs)) = 1
            \<longleftrightarrow> (\<exists>x. set (JailTypes (apply_calls j cs)) = {x})"
    unfolding c by (simp add: card_1_singleton_iff)
  show ?thesis using d c a s by blast
qed

theorem JailTypes_duplicate_free_witness:
  "distinct (JailTypes jail_1234)
   \<and> HasJailType jail_1234 ''network''
   \<and> AddJailType jail_1234 ''network'' = jail_1234
   \<and> JailTypes (apply_calls jail_1234
        [Add ''cpu'', Add ''network'', Remove ''cpu'', Remove ''cpu'']) = [''network'']
   \<and> distinct (JailTypes (apply_calls jail_1234
        [Add ''cpu'', Add ''network'', Remove ''cpu'', Remove ''cpu'']))"
proof -
  have h: "distinct (JailTypes jail_1234)" by (simp add: jail_1234_def)
  have e: "JailTypes (apply_calls jail_1234
             [Add ''cpu'', Add ''network'', Remove ''cpu'', Remove ''cpu'']) = [''network'']"
    by code_simp
  have g: "HasJailType jail_1234 ''network''" by code_simp
  show ?thesis
    using h e g JailTypes_duplicate_free [OF h,
        of "[Add ''cpu'', Add ''network'', Remove ''cpu'', Remove ''cpu'']" "''network''"]
    by simp
qed

section \<open>Jailing a process that is already jailed\<close>

text \<open>
  Claim C6. When the record of \<open>pid\<close> has the jail type already, \<open>jailProcess\<close> fails
  with \<open>AlreadyJailed\<close>, leaves the whole state as it was, and touches no file.
\<close>

theorem jail_again_AlreadyJailed:
  assumes "Atoi pidStr = Some pid"
    and "jailType = ''network'' \<or> jailType = ''cpu''"
    and "map_of (ActiveJails state) pid = Some jail"
    and "HasJailType jail jailType"
  shows "jailProcess env state jailType pidStr = (Some (AlreadyJailed pid jailType), state, [])"
  using assms by (auto simp add: jailProcess_def AlreadyJailed_def)

theorem jail_again_AlreadyJailed_witness:
  "Atoi ''100'' = Some 100
   \<and> map_of (ActiveJails (jailed_both True)) 100 =
       Some \<lparr>PID = 100, OriginalCgroup = ''/user.slice'', JailTypes = [''network'', ''cpu''],
             Timestamp = 0, Children = [101]\<rparr>
   \<and> jailProcess (host True all_writes) (jailed_both True) ''cpu'' ''100'' =
       (Some (AlreadyJailed 100 ''cpu''), jailed_both True, [])"
proof -
  let ?jail = "\<lparr>PID = 100, OriginalCgroup = ''/user.slice'', JailTypes = [''network'', ''cpu''],
                Timestamp = 0, Children = [101]\<rparr>"
  have h1: "Atoi ''100'' = Some 100" by code_simp
  have h2: "''cpu'' = ''network'' \<or> ''cpu'' = ''cpu''" by simp
  have h3: "map_of (ActiveJails (jailed_both True)) 100 = Some ?jail" by code_simp
  have h4: "HasJailType ?jail ''cpu''" by code_simp
  show ?thesis
    using h1 h3 jail_again_AlreadyJailed [OF h1 h2 h3 h4, of "host True all_writes"] by blast
qed

section \<open>Full and selective unjail\<close>

lemma unjailProcess_found:
  assumes "Atoi pidStr = Some pid" and "map_of (ActiveJails state) pid = Some jail"
  shows "unjailProcess env state pidStr =
          (None, state\<lparr>ActiveJails := AList.delete pid (ActiveJails state)\<rparr>,
           (if processExists env pid
            then snd (restoreProcessCgroup env state pid (OriginalCgroup jail)) else [])
           @ snd (restore_children_loop env state (OriginalCgroup jail) (Children jail) 0))"
  using assms by (simp add: unjailProcess_def Let_def)

lemma restore_children_loop_ops:
  "snd (restore_children_loop env state orig cs n) =
     concat (map (restore_ops_if_alive env state orig) cs)"
  by (induction cs arbitrary: n) (simp_all add: Let_def restore_ops_if_alive_def)

lemma map_of_delete_same: "map_of (AList.delete k al) k = None"
  by (simp add: AList.delete_eq map_of_eq_None_iff image_iff)

lemma map_of_delete_other: "q \<noteq> k \<Longrightarrow> map_of (AList.delete k al) q = map_of al q"
  by (induction al) (auto simp add: AList.delete_eq)

lemma restore_first_write:
  "\<exists>ops. snd (restoreProcessCgroup env state p orig) =
      WriteFile (first_restore_file state orig) (Itoa p @ newline) # ops"
  by (simp add: restoreProcessCgroup_def restoreProcessCgroupV2_def restoreProcessCgroupV1_def
      first_restore_file_def writeFile_def then_do_def Let_def split: option.splits)

text \<open>
  Claim C2. A full unjail of a jailed process always succeeds and always deletes the
  record, whatever the restores do; the other records stay. Its effects are exactly the
  restores of the root and of the children, in this order, each only if the process
  still exists and each to the one \<open>OriginalCgroup\<close> of the record; so for every such
  process that exists, the write into the first file of that cgroup is attempted.
\<close>

theorem full_unjail_deletes_record:
  assumes "Atoi pidStr = Some pid" and "map_of (ActiveJails state) pid = Some jail"
  shows "fst (unjailProcess env state pidStr) = None
       \<and> map_of (ActiveJails (fst (snd (unjailProcess env state pidStr)))) pid = None
       \<and> (\<forall>q. q \<noteq> pid \<longrightarrow>
             map_of (ActiveJails (fst (snd (unjailProcess env state pidStr)))) q
               = map_of (ActiveJails state) q)
       \<and> snd (snd (unjailProcess env state pidStr)) =
           concat (map (restore_ops_if_alive env state (OriginalCgroup jail))
                     (pid # Children jail))
       \<and> (\<forall>p \<in> set (pid # Children jail). processExists env p \<longrightarrow>
             WriteFile (first_restore_file state (OriginalCgroup jail)) (Itoa p @ newline)
               \<in> set (snd (snd (unjailProcess env state pidStr))))"
proof -
  let ?ops = "concat (map (restore_ops_if_alive env state (OriginalCgroup jail))
                     (pid # Children jail))"
  have u: "unjailProcess env state pidStr =
             (None, state\<lparr>ActiveJails := AList.delete pid (ActiveJails state)\<rparr>, ?ops)"
    unfolding unjailProcess_found [OF assms] restore_children_loop_ops
    by (simp add: restore_ops_if_alive_def)
  have attempts: "WriteFile (first_restore_file state (OriginalCgroup jail)) (Itoa p @ newline)
                    \<in> set ?ops"
    if "p \<in> set (pid # Children jail)" and "processExists env p" for p
  proof -
    obtain ops where "snd (restoreProcessCgroup env state p (OriginalCgroup jail)) =
        WriteFile (first_restore_file state (OriginalCgroup jail)) (Itoa p @ newline) # ops"
      using restore_first_write by blast
    then have "WriteFile (first_restore_file state (OriginalCgroup jail)) (Itoa p @ newline)
                 \<in> set (restore_ops_if_alive env state (OriginalCgroup jail) p)"
      using that(2) by (simp add: restore_ops_if_alive_def)
    then show ?thesis using that(1) by (simp only: set_concat set_map) blast
  qed
  show ?thesis
    unfolding u using attempts by (simp add: map_of_delete_same map_of_delete_other)
qed

text \<open>
  The witness runs on a host where every write fails: the restores of 100 and 101 are
  attempted and fail, and the record is deleted all the same.
\<close>

theorem full_unjail_deletes_record_witness:
  "Atoi ''100'' = Some 100
   \<and> map_of (ActiveJails (jailed_both True)) 100 =
       Some \<lparr>PID = 100, OriginalCgroup = ''/user.slice'', JailTypes = [''network'', ''cpu''],
             Timestamp = 0, Children = [101]\<rparr>
   \<and> processExists (host True no_writes) 100
   \<and> processExists (host True no_writes) 101
   \<and> fst (restoreProcessCgroup (host True no_writes) (jailed_both True) 101 ''/user.slice'')
       \<noteq> None
   \<and> unjailProcess (host True no_writes) (jailed_both True) ''100'' =
       (None, booted True,
        [WriteFile ''/sys/fs/cgroup/user.slice/cgroup.procs'' (''100'' @ newline),
         WriteFile ''/sys/fs/cgroup/user.slice/cgroup.procs'' (''101'' @ newline)])
   \<and> map_of (ActiveJails (fst (snd (unjailProcess (host True no_writes) (jailed_both True)
        ''100'')))) 100 = None"
proof -
  let ?jail = "\<lparr>PID = 100, OriginalCgroup = ''/user.slice'', JailTypes = [''network'', ''cpu''],
                Timestamp = 0, Children = [101]\<rparr>"
  have h1: "Atoi ''100'' = Some 100" by code_simp
  have h2: "map_of (ActiveJails (jailed_both True)) 100 = Some ?jail" by code_simp
  have e1: "processExists (host True no_writes) 100" by code_simp
  have e2: "processExists (host True no_writes) 101" by code_simp
  have f: "fst (restoreProcessCgroup (host True no_writes) (jailed_both True) 101 ''/user.slice'')
             \<noteq> None"
    by code_simp
  have r: "unjailProcess (host True no_writes) (jailed_both True) ''100'' =
       (None, booted True,
        [WriteFile ''/sys/fs/cgroup/user.slice/cgroup.procs'' (''100'' @ newline),
         WriteFile ''/sys/fs/cgroup/user.slice/cgroup.procs'' (''101'' @ newline)])"
    by code_simp
  show ?thesis
    using h1 h2 e1 e2 f r full_unjail_deletes_record [OF h1 h2, of "host True no_writes"]
    by blast
qed

text \<open>
  Claim C7. On a record with exactly one jail type \<open>t\<close>, the selective unjail of \<open>t\<close> is
  the full unjail: the same result, the same state, the same effects; it succeeds and
  the record is gone, not left without a type.
\<close>

theorem selective_unjail_of_only_type:
  assumes "Atoi pidStr = Some pid"
    and "map_of (ActiveJails state) pid = Some jail"
    and "distinct (JailTypes jail)"
    and "set (JailTypes jail) = {t}"
  shows "unjailProcessSelective env state t pidStr = unjailProcess env state pidStr
       \<and> fst (unjailProcessSelective env state t pidStr) = None
       \<and> map_of (ActiveJails (fst (snd (unjailProcessSelective env state t pidStr)))) pid = None"
proof -
  have "card (set (JailTypes jail)) = 1" using assms(4) by simp
  then have len: "length (JailTypes jail) = 1"
    using assms(3) by (simp add: distinct_card)
  have has: "HasJailType jail t"
    using assms(4) by (simp add: HasJailType_def has_type_loop_set)
  have eq: "unjailProcessSelective env state t pidStr = unjailProcess env state pidStr"
    using assms(1,2) len has by (simp add: unjailProcessSelective_def)
  show ?thesis
    unfolding eq unjailProcess_found [OF assms(1,2)] by (simp add: map_of_delete_same)
qed

theorem selective_unjail_of_only_type_witness:
  "Atoi ''100'' = Some 100
   \<and> map_of (ActiveJails (jailed_network True)) 100 =
       Some \<lparr>PID = 100, OriginalCgroup = ''/user.slice'', JailTypes = [''network''],
             Timestamp = 0, Children = [101]\<rparr>
   \<and> unjailProcessSelective (host True all_writes) (jailed_network True) ''network'' ''100''
       = unjailProcess (host True all_writes) (jailed_network True) ''100''
   \<and> unjailProcessSelective (host True all_writes) (jailed_network True) ''network'' ''100''
       = (None, booted True,
          [WriteFile ''/sys/fs/cgroup/user.slice/cgroup.procs'' (''100'' @ newline),
           WriteFile ''/sys/fs/cgroup/user.slice/cgroup.procs'' (''101'' @ newline)])"
proof -
  let ?jail = "\<lparr>PID = 100, OriginalCgroup = ''/user.slice'', JailTypes = [''network''],
                Timestamp = 0, Children = [101]\<rparr>"
  have h1: "Atoi ''100'' = Some 100" by code_simp
  have h2: "map_of (ActiveJails (jailed_network True)) 100 = Some ?jail" by code_simp
  have h3: "distinct (JailTypes ?jail)" by simp
  have h4: "set (JailTypes ?jail) = {''network''}" by simp
  have r: "unjailProcessSelective (host True all_writes) (jailed_network True) ''network''
             ''100''
       = (None, booted True,
          [WriteFile ''/sys/fs/cgroup/user.slice/cgroup.procs'' (''100'' @ newline),
           WriteFile ''/sys/fs/cgroup/user.slice/cgroup.procs'' (''101'' @ newline)])"
    by code_simp
  show ?thesis
    using h1 h2 r
      selective_unjail_of_only_type [OF h1 h2 h3 h4, of "host True all_writes"]
    by blast
qed

section \<open>The sweep of dead processes\<close>

lemma alive_loop_eq:
  "alive_loop env cs alive dead =
     (alive @ filter (processExists env) cs,
      dead + length (filter (\<lambda>c. \<not> processExists env c) cs))"
  by (induction cs arbitrary: alive dead) simp_all

lemma sweep_loop_eq:
  "sweep_loop env js seen dead =
     (seen @ map (\<lambda>(pid, jail). (pid, if processExists env pid then pruned env jail else jail)) js,
      dead @ filter (\<lambda>pid. \<not> processExists env pid) (map fst js))"
proof (induction js arbitrary: seen dead)
  case Nil
  then show ?case by simp
next
  case (Cons a js)
  obtain pid jail where a: "a = (pid, jail)" by (cases a)
  have len: "(0 < length (filter (\<lambda>c. \<not> processExists env c) (Children jail)))
              = (\<exists>c \<in> set (Children jail). \<not> processExists env c)"
    by (simp add: filter_empty_conv)
  show ?case
    unfolding a by (simp add: Cons.IH alive_loop_eq pruned_def len del: length_greater_0_conv)
qed

lemma delete_all_eq: "delete_all pids js = filter (\<lambda>(k, v). k \<notin> set pids) js"
proof (induction pids arbitrary: js)
  case Nil
  then show ?case by simp
next
  case (Cons p pids)
  show ?case
    by (simp add: Cons.IH AList.delete_eq case_prod_unfold) (metis)
qed

lemma filter_alive_pruned:
  "filter (\<lambda>(k, v). processExists env k)
     (map (\<lambda>(pid, jail). (pid, if processExists env pid then pruned env jail else jail)) js)
   = map (\<lambda>(pid, jail). (pid, pruned env jail))
       (filter (\<lambda>(pid, jail). processExists env pid) js)"
  by (induction js) auto

lemma cleanup_jails:
  "ActiveJails (cleanupDeadProcesses env state) =
     map (\<lambda>(pid, jail). (pid, pruned env jail))
       (filter (\<lambda>(pid, jail). processExists env pid) (ActiveJails state))"
proof -
  let ?js = "ActiveJails state"
  let ?upd = "map (\<lambda>(pid, jail). (pid, if processExists env pid then pruned env jail else jail))
                ?js"
  let ?dead = "filter (\<lambda>pid. \<not> processExists env pid) (map fst ?js)"
  have keys: "fst x \<in> fst ` set ?js" if "x \<in> set ?upd" for x
    using that by force
  have "filter (\<lambda>(k, v). k \<notin> set ?dead) ?upd = filter (\<lambda>(k, v). processExists env k) ?upd"
    by (rule filter_cong) (use keys in \<open>auto simp add: case_prod_unfold\<close>)
  then show ?thesis
    by (simp add: cleanupDeadProcesses_def sweep_loop_eq delete_all_eq filter_alive_pruned)
qed

lemma cleanup_twice_jails:
  "map (\<lambda>(pid, jail). (pid, pruned env jail))
     (filter (\<lambda>(pid, jail). processExists env pid)
        (map (\<lambda>(pid, jail). (pid, pruned env jail))
           (filter (\<lambda>(pid, jail). processExists env pid) js)))
   = map (\<lambda>(pid, jail). (pid, pruned env jail))
       (filter (\<lambda>(pid, jail). processExists env pid) js)"
  by (induction js) (auto simp add: pruned_def)

lemma cleanup_other_fields:
  "cleanupDeadProcesses env state =
     state\<lparr>ActiveJails := ActiveJails (cleanupDeadProcesses env state)\<rparr>"
  by (simp add: cleanupDeadProcesses_def case_prod_unfold Let_def)

lemma map_of_cleanup:
  "map_of (map (\<lambda>(pid, jail). (pid, pruned env jail))
       (filter (\<lambda>(pid, jail). processExists env pid) js)) p =
     (if processExists env p then map_option (pruned env) (map_of js p) else None)"
  by (induction js) auto

text \<open>
  Claim C9. With the same processes alive, a second sweep changes nothing: the state
  after two sweeps is the state after one. After a sweep every root and every child
  that is left exists, so there is nothing for the next sweep to remove; and a record
  that survives a sweep has the jail types and the original cgroup it had before.
\<close>

theorem sweep_idempotent:
  "cleanupDeadProcesses env (cleanupDeadProcesses env state) = cleanupDeadProcesses env state
   \<and> (\<forall>(pid, jail) \<in> set (ActiveJails (cleanupDeadProcesses env state)).
         processExists env pid \<and> (\<forall>c \<in> set (Children jail). processExists env c))
   \<and> (\<forall>pid jail'. map_of (ActiveJails (cleanupDeadProcesses env state)) pid = Some jail' \<longrightarrow>
         (\<exists>jail. map_of (ActiveJails state) pid = Some jail
            \<and> JailTypes jail' = JailTypes jail
            \<and> OriginalCgroup jail' = OriginalCgroup jail))"
proof -
  let ?once = "cleanupDeadProcesses env state"
  have "ActiveJails (cleanupDeadProcesses env ?once) = ActiveJails ?once"
    unfolding cleanup_jails [of env ?once]
    unfolding cleanup_jails [of env state]
    by (rule cleanup_twice_jails)
  then have idem: "cleanupDeadProcesses env ?once = ?once"
    using cleanup_other_fields [of env ?once] by simp
  have alive: "\<forall>(pid, jail) \<in> set (ActiveJails ?once).
         processExists env pid \<and> (\<forall>c \<in> set (Children jail). processExists env c)"
    unfolding cleanup_jails by (auto simp add: pruned_def split: if_splits)
  have keep: "\<exists>jail. map_of (ActiveJails state) pid = Some jail
            \<and> JailTypes jail' = JailTypes jail
            \<and> OriginalCgroup jail' = OriginalCgroup jail"
    if "map_of (ActiveJails ?once) pid = Some jail'" for pid jail'
  proof -
    from that obtain jail where "map_of (ActiveJails state) pid = Some jail"
      and "jail' = pruned env jail"
      unfolding cleanup_jails map_of_cleanup by (auto split: if_splits)
    then show ?thesis by (auto simp add: pruned_def)
  qed
  show ?thesis using idem alive keep by blast
qed

text \<open>
  The witness sweeps after the child 101 of the jailed process 100 has exited: the first
  sweep prunes 101, the second finds nothing to do.
\<close>

theorem sweep_idempotent_witness:
  "map_of (ActiveJails (jailed_both True)) 100 =
       Some \<lparr>PID = 100, OriginalCgroup = ''/user.slice'', JailTypes = [''network'', ''cpu''],
             Timestamp = 0, Children = [101]\<rparr>
   \<and> map_of (ActiveJails (cleanupDeadProcesses (child_gone (host True all_writes))
                            (jailed_both True))) 100 =
       Some \<lparr>PID = 100, OriginalCgroup = ''/user.slice'', JailTypes = [''network'', ''cpu''],
             Timestamp = 0, Children = []\<rparr>
   \<and> cleanupDeadProcesses (child_gone (host True all_writes))
       (cleanupDeadProcesses (child_gone (host True all_writes)) (jailed_both True))
     = cleanupDeadProcesses (child_gone (host True all_writes)) (jailed_both True)"
proof -
  have b: "map_of (ActiveJails (jailed_both True)) 100 =
       Some \<lparr>PID = 100, OriginalCgroup = ''/user.slice'', JailTypes = [''network'', ''cpu''],
             Timestamp = 0, Children = [101]\<rparr>"
    by code_simp
  have a: "map_of (ActiveJails (cleanupDeadProcesses (child_gone (host True all_writes))
                            (jailed_both True))) 100 =
       Some \<lparr>PID = 100, OriginalCgroup = ''/user.slice'', JailTypes = [''network'', ''cpu''],
             Timestamp = 0, Children = []\<rparr>"
    by code_simp
  show ?thesis
    using a b sweep_idempotent [of "child_gone (host True all_writes)" "jailed_both True"]
    by blast
qed

section \<open>The descent through the process table\<close>

lemma finite_table_pids: "finite (table_pids es)"
  by (simp add: table_pids_def)

lemma card_table_pids: "card (table_pids es) \<le> length es"
proof -
  have "card (table_pids es) \<le> length (List.map_filter (\<lambda>e. Atoi (Name e)) es)"
    unfolding table_pids_def by (rule card_length)
  also have "\<dots> \<le> length es"
    by (simp add: map_filter_def)
  finally show ?thesis .
qed

lemma table_pids_Cons:
  "table_pids (e # es) = (case Atoi (Name e) of None \<Rightarrow> {} | Some p \<Rightarrow> {p}) \<union> table_pids es"
  by (auto simp add: table_pids_def map_filter_def split: option.splits)

lemma children_loop_step:
  "\<exists>acc'. children_loop env pid (e # es) acc = children_loop env pid es acc'
          \<and> set acc' \<subseteq> set acc \<union> table_pids (e # es)"
  by (auto simp add: table_pids_Cons Let_def split: option.splits)

lemma children_loop_subset:
  "set (children_loop env pid es acc) \<subseteq> set acc \<union> table_pids es"
proof (induction es arbitrary: acc)
  case Nil
  then show ?case by simp
next
  case (Cons e es)
  obtain acc' where eq: "children_loop env pid (e # es) acc = children_loop env pid es acc'"
    and sub: "set acc' \<subseteq> set acc \<union> table_pids (e # es)"
    using children_loop_step by blast
  have "table_pids es \<subseteq> table_pids (e # es)"
    by (auto simp add: table_pids_Cons)
  then show ?case
    unfolding eq using Cons.IH [of acc'] sub by blast
qed

lemma getProcessChildren_table:
  assumes "os_ReadDir env ''/proc'' = Some es"
  shows "\<exists>children. getProcessChildren env pid = Inr children \<and> set children \<subseteq> table_pids es"
  using assms children_loop_subset [of env pid es "[]"] by (simp add: getProcessChildren_def)

lemma descend_children_total:
  assumes calls: "\<And>p w. p \<in> T \<Longrightarrow> card (T - visited w) \<le> k \<Longrightarrow> scanned_once w \<Longrightarrow>
             \<exists>w'. findDescendants n env p w = Some (None, w')
                \<and> visited w \<subseteq> visited w' \<and> scanned_once w'"
    and fin: "finite T"
  shows "set cs \<subseteq> T \<Longrightarrow> card (T - visited w) \<le> k \<Longrightarrow> scanned_once w \<Longrightarrow>
           \<exists>w'. descend_children n env cs w = Some w'
              \<and> visited w \<subseteq> visited w' \<and> scanned_once w'"
proof (induction cs arbitrary: w)
  case Nil
  then show ?case by simp
next
  case (Cons c cs)
  let ?w0 = "w\<lparr>descendants := descendants w @ [c]\<rparr>"
  have "c \<in> T" using Cons.prems(1) by simp
  moreover have "card (T - visited ?w0) \<le> k" using Cons.prems(2) by simp
  moreover have "scanned_once ?w0" using Cons.prems(3) by (simp add: scanned_once_def)
  ultimately obtain w1 where c1: "findDescendants n env c ?w0 = Some (None, w1)"
    and g1: "visited ?w0 \<subseteq> visited w1" and s1: "scanned_once w1"
    using calls by blast
  have "T - visited w1 \<subseteq> T - visited w" using g1 by auto
  then have "card (T - visited w1) \<le> card (T - visited w)"
    using fin by (simp add: card_mono)
  then have k1: "card (T - visited w1) \<le> k" using Cons.prems(2) by simp
  obtain w' where "descend_children n env cs w1 = Some w'"
    and "visited w1 \<subseteq> visited w'" and "scanned_once w'"
    using Cons.IH [of w1] Cons.prems(1) k1 s1 by auto
  then show ?case using c1 g1 by auto
qed

lemma findDescendants_total:
  assumes rd: "os_ReadDir env ''/proc'' = Some es"
  shows "p \<in> table_pids es \<Longrightarrow> card (table_pids es - visited w) \<le> k \<Longrightarrow> k < n \<Longrightarrow>
           scanned_once w \<Longrightarrow>
           \<exists>w'. findDescendants n env p w = Some (None, w')
              \<and> visited w \<subseteq> visited w' \<and> scanned_once w'"
proof (induction k arbitrary: n p w)
  case 0
  then have "table_pids es - visited w = {}"
    using finite_table_pids [of es] by simp
  then have "p \<in> visited w" using "0.prems"(1) by auto
  moreover obtain m where "n = Suc m" using "0.prems"(3) by (cases n) auto
  ultimately show ?case using "0.prems"(4) by simp
next
  case (Suc k)
  obtain m where n: "n = Suc m" and m: "k < m" using Suc.prems(3) by (cases n) auto
  show ?case
  proof (cases "p \<in> visited w")
    case True
    then show ?thesis using n Suc.prems(4) by simp
  next
    case False
    let ?w1 = "w\<lparr>visited := insert p (visited w), scans := scans w @ [p]\<rparr>"
    obtain children where ch: "getProcessChildren env p = Inr children"
      and sub: "set children \<subseteq> table_pids es"
      using getProcessChildren_table [OF rd] by blast
    have "table_pids es - visited ?w1 = (table_pids es - visited w) - {p}" by auto
    moreover have "p \<in> table_pids es - visited w" using False Suc.prems(1) by simp
    ultimately have "card (table_pids es - visited ?w1) = card (table_pids es - visited w) - 1"
      by simp
    then have k1: "card (table_pids es - visited ?w1) \<le> k" using Suc.prems(2) by simp
    have s1: "scanned_once ?w1"
      using Suc.prems(4) False by (auto simp add: scanned_once_def)
    have "\<exists>w'. descend_children m env children ?w1 = Some w'
              \<and> visited ?w1 \<subseteq> visited w' \<and> scanned_once w'"
      using sub k1 s1
    proof (rule descend_children_total [rotated 2])
      show "finite (table_pids es)" by (rule finite_table_pids)
    next
      fix q v
      assume "q \<in> table_pids es" and "card (table_pids es - visited v) \<le> k" and "scanned_once v"
      then show "\<exists>w'. findDescendants m env q v = Some (None, w')
                    \<and> visited v \<subseteq> visited w' \<and> scanned_once w'"
        using Suc.IH [of q v m] m by blast
    qed
    then obtain w' where "descend_children m env children ?w1 = Some w'"
      and "visited ?w1 \<subseteq> visited w'" and "scanned_once w'" by blast
    then show ?thesis using n False ch by (auto simp add: Let_def)
  qed
qed

lemma findDescendants_root_total:
  assumes rd: "os_ReadDir env ''/proc'' = Some es"
  shows "\<exists>w'. findDescendants (length es + 2 + extra) env pid new_walk = Some (None, w')
              \<and> scanned_once w'"
proof -
  let ?w1 = "new_walk\<lparr>visited := insert pid (visited new_walk), scans := scans new_walk @ [pid]\<rparr>"
  define m where "m = length es + 1 + extra"
  have fuel: "length es + 2 + extra = Suc m" and m: "length es < m"
    by (simp_all add: m_def)
  obtain children where ch: "getProcessChildren env pid = Inr children"
    and sub: "set children \<subseteq> table_pids es"
    using getProcessChildren_table [OF rd] by blast
  have "card (table_pids es - visited ?w1) \<le> card (table_pids es)"
    using finite_table_pids by (simp add: card_mono)
  then have k1: "card (table_pids es - visited ?w1) \<le> length es"
    using card_table_pids [of es] by simp
  have s1: "scanned_once ?w1" by (simp add: scanned_once_def new_walk_def)
  have "\<exists>w'. descend_children m env children ?w1 = Some w'
            \<and> visited ?w1 \<subseteq> visited w' \<and> scanned_once w'"
    using sub k1 s1
  proof (rule descend_children_total [rotated 2])
    show "finite (table_pids es)" by (rule finite_table_pids)
  next
    fix q v
    assume "q \<in> table_pids es" and "card (table_pids es - visited v) \<le> length es"
      and "scanned_once v"
    then show "\<exists>w'. findDescendants m env q v = Some (None, w')
                  \<and> visited v \<subseteq> visited w' \<and> scanned_once w'"
      using findDescendants_total [OF rd, of q v "length es" m] m by simp
  qed
  then obtain w' where d: "descend_children m env children ?w1 = Some w'"
    and s: "scanned_once w'" by blast
  have "pid \<notin> visited new_walk" by (simp add: new_walk_def)
  then have "findDescendants (Suc m) env pid new_walk = Some (None, w')"
    using ch d by (simp add: Let_def)
  then show ?thesis unfolding fuel using s by blast
qed

lemma findDescendants_root_unreadable:
  assumes rd: "os_ReadDir env ''/proc'' = None"
  shows "\<exists>e w'. findDescendants (2 + extra) env pid new_walk = Some (Some e, w')
              \<and> scanned_once w'"
proof -
  have fuel: "2 + extra = Suc (Suc extra)" by simp
  show ?thesis
    unfolding fuel using rd
    by (simp add: getProcessChildren_def new_walk_def scanned_once_def)
qed

lemma more_budget_Suc:
  "findDescendants n env p w = Some x \<Longrightarrow> findDescendants (Suc n) env p w = Some x"
  "descend_children n env cs w = Some y \<Longrightarrow> descend_children (Suc n) env cs w = Some y"
proof (induction n env p w and n env cs w arbitrary: x and y
    rule: findDescendants_descend_children.induct)
  case (1 env parentPid w)
  then show ?case by simp
next
  case (2 n env parentPid w)
  show ?case
  proof (cases "parentPid \<in> visited w")
    case True
    then show ?thesis using "2.prems" by simp
  next
    case False
    show ?thesis
    proof (cases "getProcessChildren env parentPid")
      case (Inl err)
      then show ?thesis using "2.prems" False by (simp add: Let_def)
    next
      case (Inr children)
      let ?w1 = "w\<lparr>visited := insert parentPid (visited w), scans := scans w @ [parentPid]\<rparr>"
      obtain w2 where d: "descend_children n env children ?w1 = Some w2" and x: "x = (None, w2)"
        using "2.prems" False Inr by (auto simp add: Let_def split: option.splits)
      have "descend_children (Suc n) env children ?w1 = Some w2"
        using "2.IH" [OF False refl Inr d] .
      then show ?thesis
        using False Inr x by (simp add: Let_def)
    qed
  qed
next
  case (3 n env w)
  then show ?case by simp
next
  case (4 n env childPid children w)
  let ?w0 = "w\<lparr>descendants := descendants w @ [childPid]\<rparr>"
  obtain err w' where f: "findDescendants n env childPid ?w0 = Some (err, w')"
    and d: "descend_children n env children w' = Some y"
    using "4.prems" by (auto split: option.splits)
  have "findDescendants (Suc n) env childPid ?w0 = Some (err, w')"
    using "4.IH"(1) [OF f] .
  moreover have "descend_children (Suc n) env children w' = Some y"
    using "4.IH"(2) [OF f refl d] .
  ultimately show ?case by simp
qed

lemma more_budget:
  "findDescendants n env p w = Some x \<Longrightarrow> findDescendants (n + extra) env p w = Some x"
proof (induction extra)
  case 0
  then show ?case by simp
next
  case (Suc extra)
  have "findDescendants (Suc (n + extra)) env p w = Some x"
    using Suc.IH [OF Suc.prems] by (rule more_budget_Suc(1))
  then show ?case by (simp only: add_Suc_right)
qed

text \<open>
  Claim C8. For every process table, cyclic or not, and every pid, the descent returns
  within its recursion budget, and with any larger budget it returns the same; no pid is
  scanned twice; and it returns an error exactly when \<open>/proc\<close> itself cannot be read,
  whatever the files of the single processes do. So \<open>getAllDescendants\<close> is the result of
  the descent, never the exhaustion of the budget.
\<close>

theorem descendants_walk_terminates:
  "\<exists>r w. (\<forall>extra. findDescendants (recursion_budget env + extra) env pid new_walk = Some (r, w))
        \<and> distinct (scans w)
        \<and> (r = None \<longleftrightarrow> os_ReadDir env ''/proc'' \<noteq> None)
        \<and> getAllDescendants env pid = (case r of None \<Rightarrow> Inr (descendants w) | Some e \<Rightarrow> Inl e)
        \<and> getAllDescendants env pid \<noteq> Inl RecursionBudgetExceeded"
proof (cases "os_ReadDir env ''/proc''")
  case None
  obtain e w where f: "findDescendants (2 + 0) env pid new_walk = Some (Some e, w)"
    and s: "scanned_once w"
    using findDescendants_root_unreadable [OF None] by blast
  have b: "recursion_budget env = 2" using None by (simp add: recursion_budget_def)
  have e: "e = Errorf ''failed to read /proc directory: %v'' [] (Some OSError)"
    using f None by (simp add: numeral_2_eq_2 getProcessChildren_def new_walk_def)
  have "findDescendants (recursion_budget env + extra) env pid new_walk = Some (Some e, w)"
    for extra using more_budget [of 2 env pid new_walk "(Some e, w)" extra] f b by simp
  moreover have "getAllDescendants env pid = Inl e"
    using f b by (simp add: getAllDescendants_def)
  ultimately show ?thesis
    using None s e by (auto simp add: scanned_once_def)
next
  case (Some es)
  obtain w where f: "findDescendants (length es + 2 + 0) env pid new_walk = Some (None, w)"
    and s: "scanned_once w"
    using findDescendants_root_total [OF Some] by blast
  have b: "recursion_budget env = length es + 2" using Some by (simp add: recursion_budget_def)
  have "findDescendants (recursion_budget env + extra) env pid new_walk = Some (None, w)"
    for extra
    using more_budget [of "length es + 2" env pid new_walk "(None, w)" extra] f b by simp
  moreover have "getAllDescendants env pid = Inr (descendants w)"
    using f b by (simp add: getAllDescendants_def)
  ultimately show ?thesis
    using Some s by (auto simp add: scanned_once_def)
qed

text \<open>
  The witness is a table in which 100 and 101 are each other's parent: the descent from
  100 finds 101, then 100 again, and stops there.
\<close>

theorem descendants_walk_terminates_witness:
  "getAllDescendants (cyclic_host) 100 = Inr [101, 100]
   \<and> findDescendants (recursion_budget cyclic_host) cyclic_host 100 new_walk =
       Some (None, \<lparr>visited = {100, 101}, descendants = [101, 100], scans = [100, 101]\<rparr>)
   \<and> getAllDescendants (host True all_writes) 100 = Inr [101]"
proof -
  have a: "getAllDescendants (cyclic_host) 100 = Inr [101, 100]" by code_simp
  have b: "findDescendants (recursion_budget cyclic_host) cyclic_host 100 new_walk =
       Some (None, \<lparr>visited = {100, 101}, descendants = [101, 100], scans = [100, 101]\<rparr>)"
    by (simp add: recursion_budget_def cyclic_host_def host_def proc_table_def new_walk_def
        getProcessChildren_def Atoi_def Join_def Clean_def Fields_def is_space_def is_digit_def
        digit_val_def insert_commute)
  have c: "getAllDescendants (host True all_writes) 100 = Inr [101]" by code_simp
  show ?thesis
    using a b c descendants_walk_terminates [of cyclic_host 100] by blast
qed

section \<open>Which failures are only warnings\<close>

lemma jail_descendants_loop_successful:
  "fst (jail_descendants_loop env state jailType ds acc) =
     acc @ filter (\<lambda>d. fst (single_move env state jailType d) = None) ds"
  by (induction ds arbitrary: acc) (auto simp add: Let_def single_move_def split: option.splits)

lemma fst_wrap: "fst (wrap msg r) = map_option (\<lambda>e. Errorf msg [] (Some e)) (fst r)"
  by (cases r) (auto simp add: wrap_def split: option.splits)

lemma snd_wrap: "snd (wrap msg r) = snd r"
  by (cases r) (auto simp add: wrap_def split: option.splits)

lemma combined_move_ignores_registry:
  "moveProcessToCombinedCgroup env (state\<lparr>ActiveJails := js\<rparr>) pid s =
   moveProcessToCombinedCgroup env state pid s"
  by (simp add: moveProcessToCombinedCgroup_def)

lemma unjailProcessSelective_succeeds:
  assumes "Atoi pidStr = Some pid" and "map_of (ActiveJails state) pid = Some jail"
    and "HasJailType jail jailType"
  shows "fst (unjailProcessSelective env state jailType pidStr) = None"
proof (cases "length (JailTypes jail) = 1")
  case True
  then show ?thesis
    using assms by (simp add: unjailProcessSelective_def unjailProcess_found [OF assms(1,2)])
next
  case False
  then show ?thesis
    using assms by (simp add: unjailProcessSelective_def Let_def)
qed

lemma jailProcess_add_type:
  assumes "Atoi pidStr = Some pid" and "jailType = ''network'' \<or> jailType = ''cpu''"
    and "map_of (ActiveJails state) pid = Some jail" and "\<not> HasJailType jail jailType"
  shows "(fst (jailProcess env state jailType pidStr) = None)
       = (fst (moveProcessToCombinedCgroup env state pid
                 (GetJailTypesString (AddJailType jail jailType))) = None)"
  using assms
  by (auto simp add: jailProcess_def Let_def fst_wrap combined_move_ignores_registry)

lemma jailProcess_new:
  assumes "Atoi pidStr = Some pid" and "jailType = ''network'' \<or> jailType = ''cpu''"
    and "map_of (ActiveJails state) pid = None" and "validateProcessAccess env pid = None"
    and "getProcessCgroup env pid = Inr orig" and "getAllDescendants env pid = Inr ds"
  shows "(fst (jailProcess env state jailType pidStr) = None)
           = (fst (single_move env state jailType pid) = None)"
    and "fst (single_move env state jailType pid) = None \<Longrightarrow>
          map_of (ActiveJails (fst (snd (jailProcess env state jailType pidStr)))) pid =
            Some \<lparr>PID = pid, OriginalCgroup = orig, JailTypes = [jailType],
                  Timestamp = time_Now env,
                  Children = filter (\<lambda>d. fst (single_move env state jailType d) = None) ds\<rparr>"
proof -
  let ?msg = "if jailType = ''cpu'' then ''failed to move main process to CPU jail: %v''
              else ''failed to move main process to jail: %v''"
  let ?k = "jail_descendants_loop env state jailType ds []"
  let ?jail = "\<lparr>PID = pid, OriginalCgroup = orig, JailTypes = [jailType],
                Timestamp = time_Now env, Children = fst ?k\<rparr>"
  have run: "jailProcess env state jailType pidStr =
      (case fst (single_move env state jailType pid) of
         Some err \<Rightarrow> (Some (Errorf ?msg [] (Some err)), state,
                       snd (single_move env state jailType pid))
       | None \<Rightarrow> (None, state\<lparr>ActiveJails := AList.update pid ?jail (ActiveJails state)\<rparr>,
                  snd (single_move env state jailType pid) @ snd ?k))"
    using assms
    by (cases "fst (single_move env state jailType pid)")
      (auto simp add: jailProcess_def Let_def fst_wrap snd_wrap single_move_def)
  show "(fst (jailProcess env state jailType pidStr) = None)
           = (fst (single_move env state jailType pid) = None)"
    unfolding run by (simp split: option.splits)
  show "map_of (ActiveJails (fst (snd (jailProcess env state jailType pidStr)))) pid =
            Some \<lparr>PID = pid, OriginalCgroup = orig, JailTypes = [jailType],
                  Timestamp = time_Now env,
                  Children = filter (\<lambda>d. fst (single_move env state jailType d) = None) ds\<rparr>"
    if "fst (single_move env state jailType pid) = None"
    unfolding run using that
    by (simp add: update_conv' jail_descendants_loop_successful)
qed

text \<open>
  Claim C3, amended. A failed move or restore of one process is only a warning in a full
  unjail, in a selective unjail, and for the descendants of a process that is jailed for
  the first time: both unjails succeed whenever the record is there (and has the type),
  whatever the writes do, and the record of a first jail lists exactly the descendants
  whose move succeeded. A failed move of the root is an error of \<open>jailProcess\<close>: a first
  jail succeeds exactly when the move of the root does, and adding a type to an existing
  record succeeds exactly when the whole combined move does.
\<close>

theorem failures_downgraded_except_root_move:
  assumes "Atoi pidStr = Some pid" and "jailType = ''network'' \<or> jailType = ''cpu''"
  shows "(\<forall>jail. map_of (ActiveJails state) pid = Some jail \<longrightarrow>
            fst (unjailProcess env state pidStr) = None
          \<and> (HasJailType jail jailType \<longrightarrow>
               fst (unjailProcessSelective env state jailType pidStr) = None)
          \<and> (\<not> HasJailType jail jailType \<longrightarrow>
               (fst (jailProcess env state jailType pidStr) = None)
                = (fst (moveProcessToCombinedCgroup env state pid
                          (GetJailTypesString (AddJailType jail jailType))) = None)))
       \<and> (\<forall>orig ds. map_of (ActiveJails state) pid = None
              \<and> validateProcessAccess env pid = None
              \<and> getProcessCgroup env pid = Inr orig
              \<and> getAllDescendants env pid = Inr ds \<longrightarrow>
            ((fst (jailProcess env state jailType pidStr) = None)
               = (fst (single_move env state jailType pid) = None))
          \<and> (fst (single_move env state jailType pid) = None \<longrightarrow>
               map_of (ActiveJails (fst (snd (jailProcess env state jailType pidStr)))) pid =
                 Some \<lparr>PID = pid, OriginalCgroup = orig, JailTypes = [jailType],
                       Timestamp = time_Now env,
                       Children = filter (\<lambda>d. fst (single_move env state jailType d) = None)
                                    ds\<rparr>))"
proof -
  have a: "fst (unjailProcess env state pidStr) = None"
    if "map_of (ActiveJails state) pid = Some jail" for jail
    using unjailProcess_found [OF assms(1) that] by simp
  show ?thesis
    using a unjailProcessSelective_succeeds [OF assms(1)]
      jailProcess_add_type [OF assms] jailProcess_new [OF assms]
    by blast
qed

text \<open>
  The witness unjails on a host where every write fails, jails 100 for the first time on
  a host where the writes of pid 101 fail (the jail succeeds without the child), and adds
  the cpu jail on a host where one write of the combined move fails (the jail fails).
\<close>

theorem failures_downgraded_except_root_move_witness:
  "Atoi ''100'' = Some 100
   \<and> map_of (ActiveJails (jailed_both False)) 100 =
       Some \<lparr>PID = 100, OriginalCgroup = ''/user.slice'', JailTypes = [''network'', ''cpu''],
             Timestamp = 0, Children = [101]\<rparr>
   \<and> fst (unjailProcess (host False no_writes) (jailed_both False) ''100'') = None
   \<and> fst (unjailProcessSelective (host False no_writes) (jailed_both False) ''cpu'' ''100'')
       = None
   \<and> map_of (ActiveJails (booted True)) 100 = None
   \<and> fst (single_move (host True (writes_but_pid 101)) (booted True) ''network'' 100) = None
   \<and> fst (single_move (host True (writes_but_pid 101)) (booted True) ''network'' 101) \<noteq> None
   \<and> fst (jailProcess (host True (writes_but_pid 101)) (booted True) ''network'' ''100'') = None
   \<and> map_of (ActiveJails (fst (snd (jailProcess (host True (writes_but_pid 101)) (booted True)
         ''network'' ''100'')))) 100 =
       Some \<lparr>PID = 100, OriginalCgroup = ''/user.slice'', JailTypes = [''network''],
             Timestamp = 0, Children = []\<rparr>
   \<and> map_of (ActiveJails (jailed_network False)) 100 =
       Some \<lparr>PID = 100, OriginalCgroup = ''/user.slice'', JailTypes = [''network''],
             Timestamp = 0, Children = [101]\<rparr>
   \<and> fst (moveProcessToCombinedCgroup
            (host False (writes_except ''/sys/fs/cgroup/net_cls/jail-network-cpu/cgroup.procs''))
            (jailed_network False) 100 ''network,cpu'') \<noteq> None
   \<and> fst (jailProcess
            (host False (writes_except ''/sys/fs/cgroup/net_cls/jail-network-cpu/cgroup.procs''))
            (jailed_network False) ''cpu'' ''100'') \<noteq> None"
proof -
  let ?net = "\<lparr>PID = 100, OriginalCgroup = ''/user.slice'', JailTypes = [''network''],
                Timestamp = 0, Children = [101]\<rparr>"
  let ?bad = "host False (writes_except ''/sys/fs/cgroup/net_cls/jail-network-cpu/cgroup.procs'')"
  let ?both = "\<lparr>PID = 100, OriginalCgroup = ''/user.slice'', JailTypes = [''network'', ''cpu''],
                Timestamp = 0, Children = [101]\<rparr>"
  let ?env = "host True (writes_but_pid 101)"
  have h1: "Atoi ''100'' = Some 100" by code_simp
  have h2: "''cpu'' = ''network'' \<or> ''cpu'' = ''cpu''" by simp
  have h2n: "''network'' = ''network'' \<or> ''network'' = ''cpu''" by simp
  have rec: "map_of (ActiveJails (jailed_both False)) 100 = Some ?both" by code_simp
  have has: "HasJailType ?both ''cpu''" by code_simp
  have unjail: "fst (unjailProcess (host False no_writes) (jailed_both False) ''100'') = None
     \<and> fst (unjailProcessSelective (host False no_writes) (jailed_both False) ''cpu'' ''100'')
         = None"
    using rec has
      failures_downgraded_except_root_move [OF h1 h2, of "jailed_both False"
        "host False no_writes"]
    by blast
  have none: "map_of (ActiveJails (booted True)) 100 = None" by code_simp
  have v: "validateProcessAccess ?env 100 = None" by code_simp
  have g: "getProcessCgroup ?env 100 = Inr ''/user.slice''" by code_simp
  have d: "getAllDescendants ?env 100 = Inr [101]" by code_simp
  have m0: "fst (single_move ?env (booted True) ''network'' 100) = None" by code_simp
  have m1: "fst (single_move ?env (booted True) ''network'' 101) \<noteq> None" by code_simp
  have "fst (jailProcess ?env (booted True) ''network'' ''100'') = None
     \<and> map_of (ActiveJails (fst (snd (jailProcess ?env (booted True) ''network'' ''100''))))
         100 =
       Some \<lparr>PID = 100, OriginalCgroup = ''/user.slice'', JailTypes = [''network''],
             Timestamp = time_Now ?env,
             Children = filter (\<lambda>d. fst (single_move ?env (booted True) ''network'' d) = None)
                          [101]\<rparr>"
    using none v g d m0
      failures_downgraded_except_root_move [OF h1 h2n, of "booted True" ?env]
    by blast
  moreover have "time_Now ?env = 0" by (simp add: host_def)
  ultimately have jail: "fst (jailProcess ?env (booted True) ''network'' ''100'') = None
     \<and> map_of (ActiveJails (fst (snd (jailProcess ?env (booted True) ''network'' ''100''))))
         100 =
       Some \<lparr>PID = 100, OriginalCgroup = ''/user.slice'', JailTypes = [''network''],
             Timestamp = 0, Children = []\<rparr>"
    using m1 by simp
  have rec1: "map_of (ActiveJails (jailed_network False)) 100 = Some ?net" by code_simp
  have hasnt: "\<not> HasJailType ?net ''cpu''" by code_simp
  have str: "GetJailTypesString (AddJailType ?net ''cpu'') = ''network,cpu''" by code_simp
  have mv: "fst (moveProcessToCombinedCgroup ?bad (jailed_network False) 100 ''network,cpu'')
              \<noteq> None"
    by code_simp
  have "(fst (jailProcess ?bad (jailed_network False) ''cpu'' ''100'') = None)
      = (fst (moveProcessToCombinedCgroup ?bad (jailed_network False) 100
                (GetJailTypesString (AddJailType ?net ''cpu''))) = None)"
    using rec1 hasnt
      failures_downgraded_except_root_move [OF h1 h2, of "jailed_network False" ?bad]
    by blast
  then have add: "fst (jailProcess ?bad (jailed_network False) ''cpu'' ''100'') \<noteq> None"
    using mv unfolding str by simp
  show ?thesis using h1 rec unjail none m0 m1 jail rec1 mv add by blast
qed

text \<open>
  Claim C3 as stated fails: on a cgroups v1 host where the write into the \<open>net_cls\<close>
  hierarchy of the combined jail fails, adding the cpu jail to the network-jailed
  process 100 returns an error, and the record says \<open>network,cpu\<close> all the same.
\<close>

theorem combined_write_failure_fails_jail:
  "map_of (ActiveJails (jailed_network False)) 100 =
       Some \<lparr>PID = 100, OriginalCgroup = ''/user.slice'', JailTypes = [''network''],
             Timestamp = 0, Children = [101]\<rparr>
   \<and> jailProcess
       (host False (writes_except ''/sys/fs/cgroup/net_cls/jail-network-cpu/cgroup.procs''))
       (jailed_network False) ''cpu'' ''100''
     = (Some (Errorf ''failed to move process to combined jail: %v'' []
               (Some (Errorf ''failed to move PID %d to net_cls combined cgroup %s: %v''
                        [''100'', ''/sys/fs/cgroup/net_cls/jail-network-cpu'']
                        (Some OSError)))),
        jailed_both False,
        [MkdirAll ''/sys/fs/cgroup/net_cls/jail-network-cpu'',
         WriteFile ''/sys/fs/cgroup/cpu/jail-network-cpu/cgroup.procs'' (''100'' @ newline),
         WriteFile ''/sys/fs/cgroup/net_cls/jail-network-cpu/cgroup.procs'' (''100'' @ newline)])
   \<and> map_of (ActiveJails (jailed_both False)) 100 =
       Some \<lparr>PID = 100, OriginalCgroup = ''/user.slice'', JailTypes = [''network'', ''cpu''],
             Timestamp = 0, Children = [101]\<rparr>"
  by code_simp

section \<open>Where the moves write\<close>

text \<open>
  Claim C1, on the code: adding the cpu jail to process 100, jailed for network with its
  live child 101, updates the record in place and moves 100 into the combined cgroup;
  no write names the child 101, which stays where it was.
\<close>

theorem jail_second_type_moves_only_root:
  "map_of (ActiveJails (jailed_network False)) 100 =
       Some \<lparr>PID = 100, OriginalCgroup = ''/user.slice'', JailTypes = [''network''],
             Timestamp = 0, Children = [101]\<rparr>
   \<and> processExists (host False all_writes) 101
   \<and> jailProcess (host False all_writes) (jailed_network False) ''cpu'' ''100'' =
       (None, jailed_both False,
        [MkdirAll ''/sys/fs/cgroup/net_cls/jail-network-cpu'',
         WriteFile ''/sys/fs/cgroup/cpu/jail-network-cpu/cgroup.procs'' (''100'' @ newline),
         WriteFile ''/sys/fs/cgroup/net_cls/jail-network-cpu/cgroup.procs'' (''100'' @ newline)])
   \<and> map_of (ActiveJails (jailed_both False)) 100 =
       Some \<lparr>PID = 100, OriginalCgroup = ''/user.slice'', JailTypes = [''network'', ''cpu''],
             Timestamp = 0, Children = [101]\<rparr>"
  by code_simp

text \<open>
  Claim C4, on the code: on a cgroups v2 host the move into the combined jail writes the
  pid into two files, the one of the combined cgroup and one under \<open>net_cls\<close>; the
  version of the state is not consulted.
\<close>

theorem combined_move_unified_writes_two_paths:
  "booted True =
     \<lparr>ActiveJails = [], NetworkCgroupPath = ''/sys/fs/cgroup/jail-network'',
      CpuCgroupPath = ''/sys/fs/cgroup/jail-cpu'',
      NetworkCpuCgroupPath = ''/sys/fs/cgroup/jail-network-cpu'',
      CgroupVersion = 2, FirewallTool = []\<rparr>
   \<and> moveProcessToCombinedCgroup (host True all_writes) (booted True) 100 ''network,cpu'' =
       (None,
        [MkdirAll ''/sys/fs/cgroup/net_cls/jail-network-cpu'',
         WriteFile ''/sys/fs/cgroup/jail-network-cpu/cgroup.procs'' (''100'' @ newline),
         WriteFile ''/sys/fs/cgroup/net_cls/jail-network-cpu/cgroup.procs'' (''100'' @ newline)])"
  by code_simp

text \<open>
  Claim C5, on the code: on a cgroups v1 host, removing the cpu jail from a process with
  both jails leaves the record with \<open>network\<close> and writes the root and the child into
  \<open>/sys/fs/cgroup/net_cls/jail\<close>. Initialization created
  \<open>/sys/fs/cgroup/net_cls/jail-network\<close> and resolved the network jail to
  \<open>/sys/fs/cgroup/memory/jail-network\<close>; it never made the directory that is written.
\<close>

theorem selective_unjail_v1_network_path:
  "initializeCgroup (host False all_writes) NewJailerState =
     (None,
      \<lparr>ActiveJails = [], NetworkCgroupPath = ''/sys/fs/cgroup/memory/jail-network'',
       CpuCgroupPath = ''/sys/fs/cgroup/cpu/jail-cpu'',
       NetworkCpuCgroupPath = ''/sys/fs/cgroup/cpu/jail-network-cpu'',
       CgroupVersion = 1, FirewallTool = []\<rparr>,
      [MkdirAll ''/sys/fs/cgroup/memory/jail-network'',
       MkdirAll ''/sys/fs/cgroup/pids/jail-network'',
       MkdirAll ''/sys/fs/cgroup/net_cls/jail-network'',
       MkdirAll ''/sys/fs/cgroup/cpu/jail-network'',
       MkdirAll ''/sys/fs/cgroup/cpu/jail-cpu'',
       MkdirAll ''/sys/fs/cgroup/cpu/jail-network-cpu'',
       WriteFile ''/sys/fs/cgroup/cpu/jail-cpu/cpu.cfs_period_us'' (''100000'' @ newline),
       WriteFile ''/sys/fs/cgroup/cpu/jail-cpu/cpu.cfs_quota_us'' (''1000'' @ newline),
       WriteFile ''/sys/fs/cgroup/cpu/jail-network-cpu/cpu.cfs_period_us'' (''100000'' @ newline),
       WriteFile ''/sys/fs/cgroup/cpu/jail-network-cpu/cpu.cfs_quota_us'' (''1000'' @ newline)])
   \<and> map_of (ActiveJails (jailed_both False)) 100 =
       Some \<lparr>PID = 100, OriginalCgroup = ''/user.slice'', JailTypes = [''network'', ''cpu''],
             Timestamp = 0, Children = [101]\<rparr>
   \<and> unjailProcessSelective (host False all_writes) (jailed_both False) ''cpu'' ''100'' =
       (None, jailed_network False,
        [WriteFile ''/sys/fs/cgroup/net_cls/jail/cgroup.procs'' (''100'' @ newline),
         WriteFile ''/sys/fs/cgroup/net_cls/jail/cgroup.procs'' (''101'' @ newline)])
   \<and> map_of (ActiveJails (jailed_network False)) 100 =
       Some \<lparr>PID = 100, OriginalCgroup = ''/user.slice'', JailTypes = [''network''],
             Timestamp = 0, Children = [101]\<rparr>"
  by code_simp

end
